theory Spec2Isabelle
  imports Complex_Main
begin

section \<open>Values and errors\<close>

text \<open>
  The forecasting core computes on float64 arrays. A finite float is modelled by the real
  number it stands for, so rounding error is left out; every formula below is the exact
  counterpart of the floating-point one. The exceptions the code can raise are values of
  \<open>py_error\<close>; the three application errors are Python \<open>ValueError\<close>s that differ in
  their message, the others are raised by numpy, pandas, scikit-learn or the interpreter.
\<close>

datatype py_error =
    ModelsNotTrained    \<comment> \<open>\<open>ValueError("Models not trained yet!")\<close>, the ensemble\<close>
  | ModelNotTrained     \<comment> \<open>\<open>ValueError("Model not trained yet!")\<close>, a single forecaster\<close>
  | BothModelsFailed    \<comment> \<open>\<open>ValueError("Both models failed to predict!")\<close>\<close>
  | ValueError          \<comment> \<open>a shape or length mismatch found by a library\<close>
  | IndexError
  | ZeroDivisionError
  | NotFittedError
  | NoneTypeError       \<comment> \<open>\<open>AttributeError\<close> or \<open>TypeError\<close> on a field that is \<open>None\<close>\<close>

section \<open>Preprocessor: the target scaler\<close>

text \<open>
  \<open>DataPreprocessor.scaler\<close> is scikit-learn's \<open>MinMaxScaler\<close> with the default range
  \<open>(0, 1)\<close>. The library is not part of the repository; its fitted state and its two
  maps are written down from its documented formulas: the scale is \<open>1 / (max - min)\<close> with a
  zero range replaced by 1, the offset is \<open>0 - min * scale\<close>, \<open>transform x = x * scale + offset\<close>
  and \<open>inverse_transform y = (y - offset) / scale\<close> (the attributes \<open>scale_\<close> and \<open>min_\<close>
  of the library are the fields \<open>sk_scale\<close> and \<open>sk_min\<close>). An array without samples is rejected
  by all three entry points, and an unfitted scaler raises \<open>NotFittedError\<close>.
\<close>

record min_max_scaler =
  data_min :: real
  data_max :: real
  sk_scale :: real
  sk_min :: real

definition handle_zeros_in_scale :: "real \<Rightarrow> real" where
  "handle_zeros_in_scale r = (if r = 0 then 1 else r)"

definition fit :: "real list \<Rightarrow> py_error + min_max_scaler" where
  "fit xs =
     (if xs = [] then Inl ValueError
      else let lo = Min (set xs); hi = Max (set xs);
               sc = 1 / handle_zeros_in_scale (hi - lo)
           in Inr \<lparr>data_min = lo, data_max = hi, sk_scale = sc, sk_min = 0 - lo * sc\<rparr>)"

definition transform :: "min_max_scaler option \<Rightarrow> real list \<Rightarrow> py_error + real list" where
  "transform st xs =
     (case st of
        None \<Rightarrow> Inl NotFittedError
      | Some s \<Rightarrow> if xs = [] then Inl ValueError
                  else Inr (map (\<lambda>x. x * sk_scale s + sk_min s) xs))"

definition inverse_transform :: "min_max_scaler option \<Rightarrow> real list \<Rightarrow> py_error + real list" where
  "inverse_transform st ys =
     (case st of
        None \<Rightarrow> Inl NotFittedError
      | Some s \<Rightarrow> if ys = [] then Inl ValueError
                  else Inr (map (\<lambda>y. (y - sk_min s) / sk_scale s) ys))"

text \<open>
  \<open>scale_features\<close> (preprocessor.py, lines 70-76) fits and transforms, or transforms with
  the statistics already held. The scaler is a field of the preprocessor, so the function
  returns the scaler state it leaves behind together with the scaled data.
  \<open>inverse_scale\<close> (lines 78-80) reads that state.
\<close>

definition scale_features ::
  "min_max_scaler option \<Rightarrow> real list \<Rightarrow> bool \<Rightarrow> py_error + (min_max_scaler option \<times> real list)" where
  "scale_features st xs do_fit =
     (if do_fit then
        (case fit xs of
           Inl e \<Rightarrow> Inl e
         | Inr s \<Rightarrow> (case transform (Some s) xs of
                       Inl e \<Rightarrow> Inl e
                     | Inr ys \<Rightarrow> Inr (Some s, ys)))
      else
        (case transform st xs of
           Inl e \<Rightarrow> Inl e
         | Inr ys \<Rightarrow> Inr (st, ys)))"

definition inverse_scale :: "min_max_scaler option \<Rightarrow> real list \<Rightarrow> py_error + real list" where
  "inverse_scale st ys = inverse_transform st ys"

section \<open>Sequence forecaster\<close>

text \<open>
  A window is a two-dimensional array, held as the list of its rows. The trained network
  (Keras in lstm_model.py, an \<open>MLPRegressor\<close> in lstm_model_lite.py) is a parameter: a
  function from the flattened window, in row-major order, to the one-step estimate.
  \<open>model = None\<close> is the state of an instance on which neither \<open>build_model\<close>,
  \<open>train\<close> nor \<open>load_model\<close> has run.
\<close>

type_synonym window = "real list list"

record lstm_forecaster =
  sequence_length :: nat
  n_features :: nat
  model :: "(real list \<Rightarrow> real) option"


text \<open>
  The light variant owns a \<open>StandardScaler\<close> as well; fitted, it holds one mean and one
  scale per flattened input column.
\<close>

record standard_scaler =
  sk_mean :: "real list"
  sk_std :: "real list"

record lstm_forecaster_lite = lstm_forecaster +
  scaler :: "standard_scaler option"

definition standardize :: "standard_scaler \<Rightarrow> real list \<Rightarrow> real list" where
  "standardize s xs = map (\<lambda>(x, (m, d)). (x - m) / d) (zip xs (zip (sk_mean s) (sk_std s)))"

definition standard_transform :: "standard_scaler option \<Rightarrow> real list \<Rightarrow> py_error + real list" where
  "standard_transform st xs =
     (case st of
        None \<Rightarrow> Inl NotFittedError
      | Some s \<Rightarrow> if length xs \<noteq> length (sk_mean s) then Inl ValueError
                  else Inr (standardize s xs))"

text \<open>
  \<open>new_row[0, 1:] = src\<close>: numpy broadcasts a source of the same length or of length 1,
  and raises otherwise.
\<close>

definition assign_covariates :: "nat \<Rightarrow> real list \<Rightarrow> py_error + real list" where
  "assign_covariates nf src =
     (if length src = nf - 1 then Inr src
      else if length src = 1 then Inr (replicate (nf - 1) (hd src))
      else Inl ValueError)"

text \<open>
  The second half of the loop body, the same text in both variants (lstm_model.py lines
  106-118, lstm_model_lite.py lines 76-85): a fresh row with the prediction in column 0,
  the covariates of step \<open>i\<close> when \<open>features\<close> has them and those of the last row
  otherwise, stacked under the window without its first row. \<open>new_row[0, 0]\<close> needs a
  column, \<open>current_sequence[-1]\<close> needs a row, and \<open>np.vstack\<close> needs the window's
  rows to be as long as the new one.
\<close>

definition shift_sequence ::
  "nat \<Rightarrow> real list list option \<Rightarrow> nat \<Rightarrow> window \<Rightarrow> real \<Rightarrow> py_error + window" where
  "shift_sequence nf features i current_sequence pred =
     (if nf = 0 then Inl IndexError
      else
        (case (if features \<noteq> None \<and> i < length (the features)
               then assign_covariates nf (the features ! i)
               else if current_sequence = [] then Inl IndexError
               else assign_covariates nf (tl (last current_sequence))) of
           Inl e \<Rightarrow> Inl e
         | Inr cov \<Rightarrow>
             if list_all (\<lambda>row. length row = nf) current_sequence
             then Inr (tl current_sequence @ [pred # cov])
             else Inl ValueError))"

text \<open>
  The first half of the body differs. The full variant reshapes the window to
  \<open>(1, sequence_length, n_features)\<close>, which needs exactly that many entries; the light
  variant flattens it and passes it through its own scaler.
\<close>

definition predict_step :: "lstm_forecaster \<Rightarrow> (real list \<Rightarrow> real) \<Rightarrow> window \<Rightarrow> py_error + real" where
  "predict_step self m current_sequence =
     (if length (concat current_sequence) \<noteq> sequence_length self * n_features self
      then Inl ValueError
      else Inr (m (concat current_sequence)))"

definition predict_step_lite ::
  "lstm_forecaster_lite \<Rightarrow> (real list \<Rightarrow> real) \<Rightarrow> window \<Rightarrow> py_error + real" where
  "predict_step_lite self m current_sequence =
     (case standard_transform (scaler self) (concat current_sequence) of
        Inl e \<Rightarrow> Inl e
      | Inr X_scaled \<Rightarrow> Inr (m X_scaled))"

text \<open>
  \<open>for i in range(n_steps)\<close>: the loop counts \<open>i\<close> up while \<open>k\<close> iterations remain;
  it carries the window and the predictions made so far. \<open>step\<close> is the first half of
  the body.
\<close>

fun predict_loop ::
  "(window \<Rightarrow> py_error + real) \<Rightarrow> nat \<Rightarrow> real list list option \<Rightarrow> nat \<Rightarrow> nat \<Rightarrow>
   window \<Rightarrow> real list \<Rightarrow> py_error + (real list \<times> window)" where
  "predict_loop step nf features i 0 current_sequence predictions =
     Inr (predictions, current_sequence)"
| "predict_loop step nf features i (Suc k) current_sequence predictions =
     (case step current_sequence of
        Inl e \<Rightarrow> Inl e
      | Inr pred \<Rightarrow>
          (case shift_sequence nf features i current_sequence pred of
             Inl e \<Rightarrow> Inl e
           | Inr next_sequence \<Rightarrow>
               predict_loop step nf features (Suc i) k next_sequence (predictions @ [pred])))"

definition predict_sequence ::
  "lstm_forecaster \<Rightarrow> window \<Rightarrow> nat \<Rightarrow> real list list option \<Rightarrow> py_error + real list" where
  "predict_sequence self initial_sequence n_steps features =
     (case model self of
        None \<Rightarrow> Inl ModelNotTrained
      | Some m \<Rightarrow>
          (case predict_loop (predict_step self m) (n_features self) features 0 n_steps
                  initial_sequence [] of
             Inl e \<Rightarrow> Inl e
           | Inr (predictions, _) \<Rightarrow> Inr predictions))"

definition predict_sequence_lite ::
  "lstm_forecaster_lite \<Rightarrow> window \<Rightarrow> nat \<Rightarrow> real list list option \<Rightarrow> py_error + real list" where
  "predict_sequence_lite self initial_sequence n_steps features =
     (case model self of
        None \<Rightarrow> Inl ModelNotTrained
      | Some m \<Rightarrow>
          (case predict_loop (predict_step_lite self m) (n_features self) features 0 n_steps
                  initial_sequence [] of
             Inl e \<Rightarrow> Inl e
           | Inr (predictions, _) \<Rightarrow> Inr predictions))"




text \<open>
  The rollout in the words of the specification, to compare the loop with: the window
  before step \<open>i\<close>, and the covariates the new row of step \<open>i\<close> receives.
\<close>

definition rollout_covariates :: "nat \<Rightarrow> real list list option \<Rightarrow> nat \<Rightarrow> window \<Rightarrow> real list" where
  "rollout_covariates nf features i w =
     (let src = (if features \<noteq> None \<and> i < length (the features)
                 then the features ! i else tl (last w))
      in if length src = nf - 1 then src else replicate (nf - 1) (hd src))"

primrec rollout_window ::
  "(window \<Rightarrow> real) \<Rightarrow> nat \<Rightarrow> real list list option \<Rightarrow> window \<Rightarrow> nat \<Rightarrow> window" where
  "rollout_window f nf features w0 0 = w0"
| "rollout_window f nf features w0 (Suc i) =
     (let w = rollout_window f nf features w0 i
      in tl w @ [f w # rollout_covariates nf features i w])"

definition covariates_fit :: "nat \<Rightarrow> real list list option \<Rightarrow> nat \<Rightarrow> bool" where
  "covariates_fit nf features n_steps =
     (case features of
        None \<Rightarrow> True
      | Some fs \<Rightarrow> list_all (\<lambda>f. length f = nf - 1 \<or> length f = 1) (take n_steps fs))"

definition window_shape :: "nat \<Rightarrow> nat \<Rightarrow> window \<Rightarrow> bool" where
  "window_shape sl nf w = (length w = sl \<and> list_all (\<lambda>row. length row = nf) w)"

section \<open>Trend forecaster\<close>

text \<open>
  \<open>ProphetForecaster\<close> wraps the Prophet library. A fitted model is a parameter: the
  number of rows of its training frame, and the forecast row it computes for the \<open>k\<close>-th
  timestamp of a future frame. \<open>make_future_dataframe(periods)\<close> is the history followed
  by \<open>periods\<close> new timestamps, and \<open>predict\<close> (prophet_model.py lines 52-67) returns one
  row for each of them; \<open>predict_future\<close> (lines 69-76) keeps the last \<open>periods\<close> rows
  with the columns \<open>ds\<close>, \<open>yhat\<close>, \<open>yhat_lower\<close> and \<open>yhat_upper\<close>.
\<close>

record prophet_row =
  ds :: int
  yhat :: real
  yhat_lower :: real
  yhat_upper :: real

record prophet_forecaster =
  fitted :: bool
  history_length :: nat
  forecast_row_at :: "nat \<Rightarrow> prophet_row"

definition prophet_predict :: "prophet_forecaster \<Rightarrow> nat \<Rightarrow> py_error + prophet_row list" where
  "prophet_predict self periods =
     (if \<not> fitted self then Inl ModelNotTrained
      else Inr (map (forecast_row_at self) [0..<history_length self + periods]))"

definition predict_future :: "prophet_forecaster \<Rightarrow> nat \<Rightarrow> py_error + prophet_row list" where
  "predict_future self periods =
     (case prophet_predict self periods of
        Inl e \<Rightarrow> Inl e
      | Inr forecast \<Rightarrow> Inr (drop (length forecast - periods) forecast))"

section \<open>Ensemble predictor\<close>

text \<open>
  Of the input frame the ensemble reads the \<open>timestamp\<close> column and what
  \<open>prepare_lstm_data\<close> makes of the frame: the windows \<open>X\<close> and the target scaler that
  the call leaves fitted in the preprocessor, or an exception. The feature engineering
  behind it is pandas code that no claim here is about, so its outcome is a field of the
  frame. Timestamps are hours on the integer line.
\<close>

record frame =
  timestamps :: "int list"
  prepared :: "py_error + (window list \<times> min_max_scaler option)"

record ensemble_weights =
  lstm :: real
  prophet :: real

definition ENSEMBLE_WEIGHTS :: ensemble_weights where
  "ENSEMBLE_WEIGHTS = \<lparr>lstm = 0.6, prophet = 0.4\<rparr>"

record ensemble_predictor =
  lstm_model :: lstm_forecaster
  prophet_model :: prophet_forecaster
  weights :: ensemble_weights
  trained :: bool

record forecast_row =
  timestamp :: int
  predicted_demand :: real
  lower_bound :: real
  upper_bound :: real
  lstm_prediction :: real
  prophet_prediction :: real

text \<open>
  \<open>predict_lstm\<close> (ensemble_predictor.py lines 46-63) returns \<open>None\<close> when the frame gives
  no window, and the rescaled rollout from the last window otherwise; \<open>predict_prophet\<close>
  (lines 65-68) returns the \<open>yhat\<close> column only.
\<close>

definition predict_lstm ::
  "ensemble_predictor \<Rightarrow> frame \<Rightarrow> nat \<Rightarrow> py_error + real list option" where
  "predict_lstm self df hours_ahead =
     (case prepared df of
        Inl e \<Rightarrow> Inl e
      | Inr (X, target_scaler) \<Rightarrow>
          if length X = 0 then Inr None
          else
            (case predict_sequence (lstm_model self) (last X) hours_ahead None of
               Inl e \<Rightarrow> Inl e
             | Inr predictions \<Rightarrow>
                 (case inverse_scale target_scaler predictions of
                    Inl e \<Rightarrow> Inl e
                  | Inr predictions_scaled \<Rightarrow> Inr (Some predictions_scaled))))"

definition predict_prophet :: "ensemble_predictor \<Rightarrow> nat \<Rightarrow> py_error + real list" where
  "predict_prophet self hours_ahead =
     (case predict_future (prophet_model self) hours_ahead of
        Inl e \<Rightarrow> Inl e
      | Inr forecast \<Rightarrow> Inr (map yhat forecast))"

text \<open>
  An arithmetic operator on two one-dimensional arrays: elementwise on equal lengths, an
  array of length 1 is stretched, anything else raises.
\<close>

definition np_broadcast ::
  "(real \<Rightarrow> real \<Rightarrow> real) \<Rightarrow> real list \<Rightarrow> real list \<Rightarrow> py_error + real list" where
  "np_broadcast f xs ys =
     (if length xs = length ys then Inr (map2 f xs ys)
      else if length xs = 1 then Inr (map (f (hd xs)) ys)
      else if length ys = 1 then Inr (map (\<lambda>x. f x (hd ys)) xs)
      else Inl ValueError)"

text \<open>
  The chain of cases of \<open>predict\<close>, lines 92-110: the point estimates and the
  uncertainty, from the two forecasts that survived.
\<close>

definition combine_predictions ::
  "ensemble_weights \<Rightarrow> real list option \<Rightarrow> real list option \<Rightarrow>
   py_error + (real list \<times> real list)" where
  "combine_predictions w lstm_pred prophet_pred =
     (if lstm_pred \<noteq> None \<and> prophet_pred \<noteq> None then
        (case np_broadcast (+) (map (\<lambda>x. lstm w * x) (the lstm_pred))
                (map (\<lambda>x. prophet w * x) (the prophet_pred)) of
           Inl e \<Rightarrow> Inl e
         | Inr ensemble_pred \<Rightarrow>
             (case np_broadcast (-) (the lstm_pred) (the prophet_pred) of
                Inl e \<Rightarrow> Inl e
              | Inr diff \<Rightarrow>
                  let disagreement = map abs diff;
                      uncertainty = map (\<lambda>d. d * 0.5) disagreement
                  in Inr (ensemble_pred, uncertainty)))
      else if lstm_pred \<noteq> None then
        Inr (the lstm_pred, map (\<lambda>x. x * 0.1) (the lstm_pred))
      else if prophet_pred \<noteq> None then
        Inr (the prophet_pred, map (\<lambda>x. x * 0.1) (the prophet_pred))
      else Inl BothModelsFailed)"

text \<open>
  \<open>pd.DataFrame\<close> of six columns (lines 117-124): the columns must be equally long.
\<close>

definition data_frame ::
  "int list \<Rightarrow> real list \<Rightarrow> real list \<Rightarrow> real list \<Rightarrow> real list \<Rightarrow> real list \<Rightarrow>
   py_error + forecast_row list" where
  "data_frame ts pd lo up lp pp =
     (if length pd = length ts \<and> length lo = length ts \<and> length up = length ts \<and>
         length lp = length ts \<and> length pp = length ts
      then Inr (map (\<lambda>i. \<lparr>timestamp = ts ! i, predicted_demand = pd ! i, lower_bound = lo ! i,
                           upper_bound = up ! i, lstm_prediction = lp ! i,
                           prophet_prediction = pp ! i\<rparr>) [0..<length ts])
      else Inl ValueError)"

text \<open>
  The two \<open>try\<close> blocks of \<open>predict\<close> (lines 79-89): an exception of a forecaster
  leaves \<open>None\<close> in its variable.
\<close>

definition lstm_pred :: "ensemble_predictor \<Rightarrow> frame \<Rightarrow> nat \<Rightarrow> real list option" where
  "lstm_pred self df hours_ahead =
     (case predict_lstm self df hours_ahead of Inl e \<Rightarrow> None | Inr r \<Rightarrow> r)"

definition prophet_pred :: "ensemble_predictor \<Rightarrow> nat \<Rightarrow> real list option" where
  "prophet_pred self hours_ahead =
     (case predict_prophet self hours_ahead of Inl e \<Rightarrow> None | Inr r \<Rightarrow> Some r)"

text \<open>
  \<open>EnsemblePredictor.predict\<close> (lines 70-126). The uncertainty is as long as the point
  estimates in every case, so the two bound columns are elementwise.
\<close>

definition predict :: "ensemble_predictor \<Rightarrow> frame \<Rightarrow> nat \<Rightarrow> py_error + forecast_row list" where
  "predict self df hours_ahead =
     (if \<not> trained self then Inl ModelsNotTrained
      else
        case combine_predictions (weights self) (lstm_pred self df hours_ahead)
               (prophet_pred self hours_ahead) of
          Inl e \<Rightarrow> Inl e
        | Inr (ensemble_pred, uncertainty) \<Rightarrow>
            if timestamps df = [] then Inl IndexError
            else
              let last_timestamp = last (timestamps df);
                  future_timestamps = map (\<lambda>i. last_timestamp + (int i + 1)) [0..<hours_ahead]
              in data_frame future_timestamps ensemble_pred
                   (map2 (-) ensemble_pred uncertainty)
                   (map2 (+) ensemble_pred uncertainty)
                   (if lstm_pred self df hours_ahead \<noteq> None
                    then the (lstm_pred self df hours_ahead) else ensemble_pred)
                   (if prophet_pred self hours_ahead \<noteq> None
                    then the (prophet_pred self hours_ahead) else ensemble_pred))"

subsection \<open>Confidence\<close>

text \<open>
  The confidence column is the one place of the ensemble where a float that is not finite
  can arise, from the division. \<open>fl\<close> adds the three special values of float64 to the
  finite ones. A zero denominator is taken as \<open>+0\<close>: the sign of an infinite quotient
  depends on that, the quotient \<open>0 / 0\<close> does not, it is NaN for either zero.
\<close>

datatype fl = Fin real | PInf | NInf | NaN

definition fl_div :: "real \<Rightarrow> real \<Rightarrow> fl" where
  "fl_div a b =
     (if b \<noteq> 0 then Fin (a / b)
      else if 0 < a then PInf
      else if a < 0 then NInf
      else NaN)"

fun fl_rsub :: "real \<Rightarrow> fl \<Rightarrow> fl" where
  "fl_rsub c (Fin r) = Fin (c - r)"
| "fl_rsub c PInf = NInf"
| "fl_rsub c NInf = PInf"
| "fl_rsub c NaN = NaN"

fun fl_scale :: "real \<Rightarrow> fl \<Rightarrow> fl" where
  "fl_scale c (Fin r) = Fin (c * r)"
| "fl_scale c PInf = (if 0 < c then PInf else if c < 0 then NInf else NaN)"
| "fl_scale c NInf = (if 0 < c then NInf else if c < 0 then PInf else NaN)"
| "fl_scale c NaN = NaN"

fun clip :: "real \<Rightarrow> real \<Rightarrow> fl \<Rightarrow> fl" where
  "clip lo hi (Fin r) = Fin (min hi (max lo r))"
| "clip lo hi PInf = Fin hi"
| "clip lo hi NInf = Fin lo"
| "clip lo hi NaN = NaN"

record confident_row = forecast_row +
  confidence :: fl

definition confidence_of :: "forecast_row \<Rightarrow> fl" where
  "confidence_of r =
     clip 0 100
       (fl_scale 100
          (fl_rsub 1 (fl_div (upper_bound r - lower_bound r) (2 * predicted_demand r))))"

definition predict_with_confidence ::
  "ensemble_predictor \<Rightarrow> frame \<Rightarrow> nat \<Rightarrow> py_error + confident_row list" where
  "predict_with_confidence self df hours_ahead =
     (case predict self df hours_ahead of
        Inl e \<Rightarrow> Inl e
      | Inr predictions \<Rightarrow>
          Inr (map (\<lambda>r. forecast_row.extend r \<lparr>confidence = confidence_of r\<rparr>) predictions))"

subsection \<open>Sample ensembles\<close>

text \<open>
  Small instances to run the ensemble on. The sequence forecaster has windows of one row
  and one column and sums its input; the trend forecaster answers every timestamp with
  the same row, whose own interval is \<open>[80, 130]\<close> around 100 (or all zero). A frame with
  a window lets the sequence forecaster answer 50 per step; a frame too short for a
  window makes \<open>predict_lstm\<close> return \<open>None\<close>.
\<close>

definition sample_lstm :: lstm_forecaster where
  "sample_lstm = \<lparr>sequence_length = 1, n_features = 1, model = Some sum_list\<rparr>"

definition sample_prophet :: "real \<Rightarrow> real \<Rightarrow> real \<Rightarrow> prophet_forecaster" where
  "sample_prophet y lo hi =
     \<lparr>fitted = True, history_length = 3,
      forecast_row_at = (\<lambda>k. \<lparr>ds = int k, yhat = y, yhat_lower = lo, yhat_upper = hi\<rparr>)\<rparr>"

definition unfitted_prophet :: prophet_forecaster where
  "unfitted_prophet =
     \<lparr>fitted = False, history_length = 0,
      forecast_row_at = (\<lambda>k. \<lparr>ds = int k, yhat = 0, yhat_lower = 0, yhat_upper = 0\<rparr>)\<rparr>"

definition sample_ensemble :: "prophet_forecaster \<Rightarrow> ensemble_predictor" where
  "sample_ensemble pm =
     \<lparr>lstm_model = sample_lstm, prophet_model = pm, weights = ENSEMBLE_WEIGHTS, trained = True\<rparr>"

definition window_frame :: frame where
  "window_frame =
     \<lparr>timestamps = [0, 1, 2],
      prepared = Inr ([[[1 / 2]]],
                      Some \<lparr>data_min = 0, data_max = 100, sk_scale = 1 / 100, sk_min = 0\<rparr>)\<rparr>"

definition short_frame :: frame where
  "short_frame = \<lparr>timestamps = [0, 1, 2], prepared = Inr ([], None)\<rparr>"

text \<open>
  A frame with its columns and no row: \<open>prepare_lstm_data\<close> fails in it when it fits the
  target scaler on no sample.
\<close>

definition empty_frame :: frame where
  "empty_frame = \<lparr>timestamps = [], prepared = Inl ValueError\<rparr>"

section \<open>Statistical ensemble (light variant)\<close>




definition mean :: "real list \<Rightarrow> real" where
  "mean xs = sum_list xs / real (length xs)"

definition sample_std :: "real list \<Rightarrow> real" where
  "sample_std xs = sqrt (sum_list (map (\<lambda>x. (x - mean xs)\<^sup>2) xs) / (real (length xs) - 1))"









section \<open>Anomaly detector\<close>

text \<open>
  \<open>AnomalyDetector\<close> (anomaly_detector.py) holds a threshold and a window, both from
  config.py. Its quotients may leave the finite floats, so z-scores and percentage
  changes are values of \<open>fl\<close>.
\<close>

definition ANOMALY_THRESHOLD :: real where
  "ANOMALY_THRESHOLD = 3.0"

definition ANOMALY_WINDOW :: nat where
  "ANOMALY_WINDOW = 24"

record anomaly_detector =
  threshold :: real
  window :: nat

definition default_detector :: anomaly_detector where
  "default_detector = \<lparr>threshold = ANOMALY_THRESHOLD, window = ANOMALY_WINDOW\<rparr>"

datatype severity = High | Medium

fun fl_abs :: "fl \<Rightarrow> fl" where
  "fl_abs (Fin r) = Fin \<bar>r\<bar>"
| "fl_abs PInf = PInf"
| "fl_abs NInf = PInf"
| "fl_abs NaN = NaN"

fun fl_gt :: "fl \<Rightarrow> real \<Rightarrow> bool" where
  "fl_gt (Fin r) c = (c < r)"
| "fl_gt PInf c = True"
| "fl_gt NInf c = False"
| "fl_gt NaN c = False"

fun fl_minus :: "fl \<Rightarrow> real \<Rightarrow> fl" where
  "fl_minus (Fin r) c = Fin (r - c)"
| "fl_minus PInf c = PInf"
| "fl_minus NInf c = NInf"
| "fl_minus NaN c = NaN"

fun isnan :: "fl \<Rightarrow> bool" where
  "isnan NaN = True"
| "isnan _ = False"

subsection \<open>Z-score method\<close>

text \<open>
  \<open>Series.rolling(window, center=True)\<close> with a fixed window: the window of index \<open>i\<close>
  ends (exclusively) at \<open>i + 1 + (window - 1) // 2\<close> and starts \<open>window\<close> samples
  before; \<open>min_periods\<close> is the window size, so an index whose window leaves the series
  has no value (NaN, here \<open>None\<close>). The standard deviation has \<open>n - 1\<close> in its
  denominator and needs two samples.
\<close>

definition rolling_values :: "real list \<Rightarrow> nat \<Rightarrow> nat \<Rightarrow> real list option" where
  "rolling_values data w i =
     (let offset = (w - 1) div 2; stop = i + 1 + offset
      in if w = 0 \<or> stop < w \<or> length data < stop then None
         else Some (take w (drop (stop - w) data)))"

definition rolling_mean :: "real list \<Rightarrow> nat \<Rightarrow> nat \<Rightarrow> real option" where
  "rolling_mean data w i = map_option mean (rolling_values data w i)"

definition rolling_std :: "real list \<Rightarrow> nat \<Rightarrow> nat \<Rightarrow> real option" where
  "rolling_std data w i =
     (case rolling_values data w i of
        None \<Rightarrow> None
      | Some vs \<Rightarrow> if w < 2 then None else Some (sample_std vs))"

definition z_scores :: "real list \<Rightarrow> nat \<Rightarrow> nat \<Rightarrow> fl" where
  "z_scores data w i =
     (case (rolling_mean data w i, rolling_std data w i) of
        (Some m, Some s) \<Rightarrow> fl_abs (fl_div (data ! i - m) s)
      | _ \<Rightarrow> NaN)"

record zscore_anomaly =
  z_index :: nat
  z_value :: real
  z_score :: fl
  z_expected_range :: "real \<times> real"
  z_severity :: severity

definition detect_zscore_anomalies ::
  "anomaly_detector \<Rightarrow> real list \<Rightarrow> nat option \<Rightarrow> zscore_anomaly list" where
  "detect_zscore_anomalies self data window_arg =
     (let w = (case window_arg of None \<Rightarrow> window self | Some w' \<Rightarrow> w');
          anomaly_indices = filter (\<lambda>i. fl_gt (z_scores data w i) (threshold self))
                              [0..<length data]
      in map (\<lambda>idx.
                \<lparr>z_index = idx,
                 z_value = data ! idx,
                 z_score = z_scores data w idx,
                 z_expected_range =
                   (the (rolling_mean data w idx) - threshold self * the (rolling_std data w idx),
                    the (rolling_mean data w idx) + threshold self * the (rolling_std data w idx)),
                 z_severity = (if fl_gt (z_scores data w idx) (threshold self * 1.5)
                               then High else Medium)\<rparr>)
           (filter (\<lambda>idx. \<not> isnan (z_scores data w idx)) anomaly_indices))"

text \<open>
  The z-score in the words of the specification, to compare the detector with: the
  quotient \<open>|value[i] - rolling_mean[i]| / rolling_std[i]\<close> where the rolling standard
  deviation is defined and the quotient exists.
\<close>

definition zscore_at :: "real list \<Rightarrow> nat \<Rightarrow> nat \<Rightarrow> real option" where
  "zscore_at data w i =
     (case (rolling_mean data w i, rolling_std data w i) of
        (Some m, Some s) \<Rightarrow> if 0 < s then Some (\<bar>data ! i - m\<bar> / s) else None
      | _ \<Rightarrow> None)"

definition exceeds :: "real option \<Rightarrow> real \<Rightarrow> bool" where
  "exceeds z c = (case z of None \<Rightarrow> False | Some v \<Rightarrow> c < v)"

subsection \<open>IQR method\<close>

text \<open>
  \<open>np.percentile\<close> with its default linear interpolation between the two neighbours of
  the position \<open>q / 100 * (n - 1)\<close> in the sorted data. On an empty series the loop of
  \<open>detect_iqr_anomalies\<close> has nothing to visit.
\<close>

definition percentile :: "real list \<Rightarrow> real \<Rightarrow> real" where
  "percentile data q =
     (let a = sort data; n = length a;
          pos = q / 100 * (real n - 1);
          lo = nat \<lfloor>pos\<rfloor>;
          frac = pos - real lo
      in if lo + 1 < n then a ! lo + frac * (a ! (lo + 1) - a ! lo) else a ! lo)"

record iqr_anomaly =
  iqr_index :: nat
  iqr_value :: real
  iqr_expected_range :: "real \<times> real"
  iqr_deviation :: real
  iqr_severity :: severity

definition detect_iqr_anomalies :: "real list \<Rightarrow> iqr_anomaly list" where
  "detect_iqr_anomalies data =
     (if data = [] then []
      else
        let q1 = percentile data 25; q3 = percentile data 75; iqr = q3 - q1;
            lower = q1 - 1.5 * iqr; upper = q3 + 1.5 * iqr
        in map (\<lambda>idx.
                  \<lparr>iqr_index = idx,
                   iqr_value = data ! idx,
                   iqr_expected_range = (lower, upper),
                   iqr_deviation = min \<bar>data ! idx - lower\<bar> \<bar>data ! idx - upper\<bar>,
                   iqr_severity = (if data ! idx < lower - iqr \<or> upper + iqr < data ! idx
                                   then High else Medium)\<rparr>)
             (filter (\<lambda>idx. data ! idx < lower \<or> upper < data ! idx) [0..<length data]))"

subsection \<open>Sudden changes\<close>

datatype change_type = Spike | Drop

definition pct_change :: "real list \<Rightarrow> nat \<Rightarrow> fl" where
  "pct_change data i = (if i = 0 then NaN else fl_minus (fl_div (data ! i) (data ! (i - 1))) 1)"

record sudden_change =
  c_index :: nat
  from_value :: real
  to_value :: real
  change_percent :: fl
  c_type :: change_type
  c_severity :: severity

definition detect_sudden_changes :: "real list \<Rightarrow> real \<Rightarrow> sudden_change list" where
  "detect_sudden_changes data change_threshold =
     (let significant_changes =
            filter (\<lambda>i. fl_gt (fl_abs (pct_change data i)) change_threshold) [0..<length data]
      in map (\<lambda>idx.
                \<lparr>c_index = idx,
                 from_value = data ! (idx - 1),
                 to_value = data ! idx,
                 change_percent = fl_scale 100 (pct_change data idx),
                 c_type = (if fl_gt (pct_change data idx) 0 then Spike else Drop),
                 c_severity = (if fl_gt (fl_abs (pct_change data idx)) (change_threshold * 2)
                               then High else Medium)\<rparr>)
           (filter (\<lambda>idx. 0 < idx \<and> \<not> isnan (pct_change data idx)) significant_changes))"

subsection \<open>Analysis\<close>

text \<open>
  Python's \<open>round(p, 2)\<close> takes the float \<open>p\<close> that the division and the product leave
  and returns the multiple of one hundredth nearest to it. \<open>p\<close> lies within a rounding
  error of the quotient \<open>x\<close> of the reals, so the result is the multiple nearest to \<open>x\<close>
  unless \<open>x\<close> is halfway between two of them: there \<open>p\<close> may lie on either side of the
  midpoint (\<open>round((1 / 4000) * 100, 2)\<close> is 0.03, \<open>round((3 / 4000) * 100, 2)\<close> is
  0.07), which the reals cannot tell. \<open>tie_up\<close> holds what the floats decide at such a
  midpoint: whether the upper neighbour is returned. \<open>analyze_anomalies\<close> (lines 94-112)
  divides two Python integers, which raises on an empty series (where, depending on the
  numpy at hand, \<open>np.percentile\<close> may have raised before: an exception either way); the
  change threshold is the default 0.3 of \<open>detect_sudden_changes\<close>.
\<close>

definition py_round2 :: "bool \<Rightarrow> real \<Rightarrow> real" where
  "py_round2 tie_up x =
     (let y = x * 100; f = \<lfloor>y\<rfloor>; d = y - of_int f
      in (if d < 1 / 2 then of_int f
          else if 1 / 2 < d then of_int f + 1
          else if tie_up then of_int f + 1 else of_int f) / 100)"

record anomaly_report =
  zscore_anomalies :: "zscore_anomaly list"
  iqr_anomalies :: "iqr_anomaly list"
  sudden_changes :: "sudden_change list"
  total_anomalies :: nat
  anomaly_rate :: real

definition analyze_anomalies ::
  "anomaly_detector \<Rightarrow> real list \<Rightarrow> bool \<Rightarrow> py_error + anomaly_report" where
  "analyze_anomalies self data tie_up =
     (let zs = detect_zscore_anomalies self data None;
          iq = detect_iqr_anomalies data;
          sc = detect_sudden_changes data 0.3
      in if length data = 0 then Inl ZeroDivisionError
         else Inr \<lparr>zscore_anomalies = zs, iqr_anomalies = iq, sudden_changes = sc,
                    total_anomalies = length zs + length iq + length sc,
                    anomaly_rate = py_round2 tie_up (real (length zs) / real (length data) * 100)\<rparr>)"

text \<open>
  A day of hourly samples at 100 with one sample of 1000 at hour 12.
\<close>

definition spike_series :: "real list" where
  "spike_series = replicate 12 100 @ [1000] @ replicate 11 100"

section \<open>Properties of the scaler\<close>

lemma fit_scale_nonzero:
  assumes "fit xs = Inr s"
  shows "sk_scale s \<noteq> 0"
  using assms
  by (auto simp: fit_def Let_def handle_zeros_in_scale_def split: if_splits)

text \<open>
  Claim C9. When the target scaler is fit on a series \<open>S\<close> (the fit succeeds, so \<open>S\<close> has a
  sample), scaling \<open>S\<close> and mapping the result back with the statistics of that fit
  returns \<open>S\<close>, element for element. Over the reals the identity is exact.
\<close>

theorem scaler_roundtrip:
  assumes "scale_features st0 S True = Inr (st, T)"
  shows "inverse_scale st T = Inr S"
proof -
  from assms obtain s where s: "fit S = Inr s" and st: "st = Some s"
    and T: "transform (Some s) S = Inr T"
    by (auto simp: scale_features_def split: sum.splits)
  from s have ne: "S \<noteq> []" by (auto simp: fit_def split: if_splits)
  from s have nz: "sk_scale s \<noteq> 0" by (rule fit_scale_nonzero)
  from T ne have T': "T = map (\<lambda>x. x * sk_scale s + sk_min s) S"
    by (simp add: transform_def)
  have "map (\<lambda>y. (y - sk_min s) / sk_scale s) T = S"
    unfolding T' using nz by (simp add: map_idI)
  with ne T' st show ?thesis
    by (simp add: inverse_scale_def inverse_transform_def)
qed

theorem scaler_roundtrip_witness:
  "scale_features None [2, 4, 10] True
     = Inr (Some \<lparr>data_min = 2, data_max = 10, sk_scale = 1 / 8, sk_min = - (1 / 4)\<rparr>, [0, 1 / 4, 1])
   \<and> inverse_scale (Some \<lparr>data_min = 2, data_max = 10, sk_scale = 1 / 8, sk_min = - (1 / 4)\<rparr>)
        [0, 1 / 4, 1] = Inr [2, 4, 10]"
proof -
  have h: "scale_features None [2, 4, 10] True
     = Inr (Some \<lparr>data_min = 2, data_max = 10, sk_scale = 1 / 8, sk_min = - (1 / 4)\<rparr>, [0, 1 / 4, 1])"
    by (simp add: scale_features_def fit_def transform_def handle_zeros_in_scale_def Let_def)
  from scaler_roundtrip [OF h] h show ?thesis by simp
qed

section \<open>Properties of the rollout\<close>

lemma window_shape_last:
  assumes "window_shape sl nf w" "1 \<le> sl"
  shows "w \<noteq> []" "length (last w) = nf" "list_all (\<lambda>row. length row = nf) w"
proof -
  from assms show ne: "w \<noteq> []" by (auto simp: window_shape_def)
  from assms show all: "list_all (\<lambda>row. length row = nf) w" by (simp add: window_shape_def)
  from ne have "last w \<in> set w" by simp
  with all show "length (last w) = nf" by (simp add: list_all_iff)
qed

lemma rollout_covariates_length:
  assumes "window_shape sl nf w" "1 \<le> sl" "covariates_fit nf features n" "i < n"
  shows "length (rollout_covariates nf features i w) = nf - 1"
proof (cases "features \<noteq> None \<and> i < length (the features)")
  case True
  then obtain fs where fs: "features = Some fs" "i < length fs" by auto
  with assms(3,4) have "length (fs ! i) = nf - 1 \<or> length (fs ! i) = 1"
    by (auto simp: covariates_fit_def list_all_length)
  with fs show ?thesis by (auto simp: rollout_covariates_def Let_def)
next
  case False
  note w = window_shape_last [OF assms(1,2)]
  with False show ?thesis by (auto simp: rollout_covariates_def Let_def)
qed

lemma shift_sequence_ok:
  assumes "window_shape sl nf w" "1 \<le> sl" "1 \<le> nf" "covariates_fit nf features n" "i < n"
  shows "shift_sequence nf features i w pred = Inr (tl w @ [pred # rollout_covariates nf features i w])"
proof -
  note w = window_shape_last [OF assms(1,2)]
  show ?thesis
  proof (cases "features \<noteq> None \<and> i < length (the features)")
    case True
    then obtain fs where fs: "features = Some fs" "i < length fs" by auto
    with assms(4,5) have "length (fs ! i) = nf - 1 \<or> length (fs ! i) = 1"
      by (auto simp: covariates_fit_def list_all_length)
    with fs w assms(3) show ?thesis
      by (auto simp: shift_sequence_def rollout_covariates_def assign_covariates_def Let_def)
  next
    case False
    with w assms(3) show ?thesis
      by (auto simp: shift_sequence_def rollout_covariates_def assign_covariates_def Let_def)
  qed
qed

lemma window_shape_shift:
  assumes "window_shape sl nf w" "1 \<le> sl" "length cov = nf - 1" "1 \<le> nf"
  shows "window_shape sl nf (tl w @ [p # cov])"
proof -
  note w = window_shape_last [OF assms(1,2)]
  from w(1) have "set (tl w) \<subseteq> set w" by (cases w) auto
  with w(3) have "list_all (\<lambda>row. length row = nf) (tl w)"
    by (auto simp: list_all_iff)
  moreover from assms(1,2) have "length (tl w @ [p # cov]) = sl"
    by (simp add: window_shape_def)
  ultimately show ?thesis using assms(3,4) by (simp add: window_shape_def)
qed

lemma rollout_window_shape:
  assumes "window_shape sl nf w0" "1 \<le> sl" "1 \<le> nf" "covariates_fit nf features n" "i \<le> n"
  shows "window_shape sl nf (rollout_window f nf features w0 i)"
  using assms(5)
proof (induction i)
  case 0
  with assms(1) show ?case by simp
next
  case (Suc i)
  then have sh: "window_shape sl nf (rollout_window f nf features w0 i)" and lt: "i < n" by auto
  have len: "length (rollout_covariates nf features i (rollout_window f nf features w0 i)) = nf - 1"
    by (rule rollout_covariates_length [OF sh assms(2,4) lt])
  show ?case
    by (simp add: Let_def window_shape_shift [OF sh assms(2) len assms(3)])
qed

lemma predict_loop_rollout:
  assumes sh: "window_shape sl nf w0" and sl: "1 \<le> sl" and nf: "1 \<le> nf"
    and cf: "covariates_fit nf features n"
    and st: "\<And>w. window_shape sl nf w \<Longrightarrow> step w = Inr (f w)"
  shows "i + k \<le> n \<Longrightarrow>
     predict_loop step nf features i k (rollout_window f nf features w0 i) preds
       = Inr (preds @ map (\<lambda>j. f (rollout_window f nf features w0 j)) [i..<i + k],
              rollout_window f nf features w0 (i + k))"
proof (induction k arbitrary: i preds)
  case 0
  show ?case by simp
next
  case (Suc k)
  let ?w = "rollout_window f nf features w0 i"
  from Suc.prems have le: "i \<le> n" and lt: "i < n" and le': "Suc i + k \<le> n" by auto
  have shw: "window_shape sl nf ?w"
    by (rule rollout_window_shape [OF sh sl nf cf le])
  have s1: "step ?w = Inr (f ?w)" by (rule st [OF shw])
  have s2: "shift_sequence nf features i ?w (f ?w)
              = Inr (rollout_window f nf features w0 (Suc i))"
    by (simp add: shift_sequence_ok [OF shw sl nf cf lt] Let_def)
  have up: "[i..<i + Suc k] = i # [Suc i..<Suc i + k]"
    by (simp add: upt_conv_Cons)
  show ?case
    by (simp only: predict_loop.simps s1 s2 sum.case Suc.IH [OF le'] up)
       simp
qed


lemma concat_length_rows:
  "list_all (\<lambda>row. length row = nf) w \<Longrightarrow> length (concat w) = length w * nf"
  by (induction w) auto

lemma predict_step_ok:
  assumes "window_shape (sequence_length self) (n_features self) w"
  shows "predict_step self m w = Inr (m (concat w))"
  using assms concat_length_rows [of "n_features self" w]
  by (simp add: predict_step_def window_shape_def)

lemma predict_step_lite_ok:
  assumes "window_shape (sequence_length self) (n_features self) w"
    and "scaler self = Some sc"
    and "length (sk_mean sc) = sequence_length self * n_features self"
  shows "predict_step_lite self m w = Inr (m (standardize sc (concat w)))"
  using assms concat_length_rows [of "n_features self" w]
  by (simp add: predict_step_lite_def standard_transform_def window_shape_def)

text \<open>
  Claim C6. For a trained sequence forecaster, a last window of shape
  \<open>(sequence_length, n_features)\<close> and any number of steps, \<open>predict_sequence\<close> returns one
  value per step, and these are the autoregressive rollout: the value of step \<open>i\<close> is the
  one-step estimate on the window before step \<open>i\<close>, and each window is its predecessor
  without the oldest row and with a new last row that holds the estimate in column 0 and
  the covariates of that step (the future covariates when \<open>features\<close> has a row for the
  step, the last row's covariates otherwise). Every window along the way keeps the shape.
  The first conjunct is the full variant, the second the light one, whose estimate passes
  through the forecaster's own scaler. Shapes are those numpy accepts: at least one row
  and one column, and covariate rows of \<open>n_features - 1\<close> entries (or one, broadcast).
\<close>

theorem predict_sequence_rollout:
  "(model self = Some m \<and>
    window_shape (sequence_length self) (n_features self) w0 \<and>
    1 \<le> sequence_length self \<and> 1 \<le> n_features self \<and>
    covariates_fit (n_features self) features n_steps
    \<longrightarrow>
      predict_sequence self w0 n_steps features
        = Inr (map (\<lambda>i. m (concat (rollout_window (\<lambda>w. m (concat w)) (n_features self)
                                       features w0 i))) [0..<n_steps]) \<and>
      (\<forall>i\<le>n_steps. window_shape (sequence_length self) (n_features self)
          (rollout_window (\<lambda>w. m (concat w)) (n_features self) features w0 i)))
   \<and>
   (model lite = Some m' \<and> scaler lite = Some sc \<and>
    length (sk_mean sc) = sequence_length lite * n_features lite \<and>
    window_shape (sequence_length lite) (n_features lite) w0' \<and>
    1 \<le> sequence_length lite \<and> 1 \<le> n_features lite \<and>
    covariates_fit (n_features lite) features' n_steps'
    \<longrightarrow>
      predict_sequence_lite lite w0' n_steps' features'
        = Inr (map (\<lambda>i. m' (standardize sc (concat (rollout_window
                   (\<lambda>w. m' (standardize sc (concat w))) (n_features lite) features' w0' i))))
                 [0..<n_steps']) \<and>
      (\<forall>i\<le>n_steps'. window_shape (sequence_length lite) (n_features lite)
          (rollout_window (\<lambda>w. m' (standardize sc (concat w))) (n_features lite)
             features' w0' i)))"
proof (intro conjI impI allI)
  assume a: "model self = Some m \<and>
    window_shape (sequence_length self) (n_features self) w0 \<and>
    1 \<le> sequence_length self \<and> 1 \<le> n_features self \<and>
    covariates_fit (n_features self) features n_steps"
  then have sh: "window_shape (sequence_length self) (n_features self) w0"
    and sl: "1 \<le> sequence_length self" and nf: "1 \<le> n_features self"
    and cf: "covariates_fit (n_features self) features n_steps"
    and m: "model self = Some m" by auto
  have "predict_loop (predict_step self m) (n_features self) features 0 n_steps
          (rollout_window (\<lambda>w. m (concat w)) (n_features self) features w0 0) []
        = Inr ([] @ map (\<lambda>j. m (concat (rollout_window (\<lambda>w. m (concat w)) (n_features self)
                                       features w0 j))) [0..<0 + n_steps],
               rollout_window (\<lambda>w. m (concat w)) (n_features self) features w0 (0 + n_steps))"
    by (rule predict_loop_rollout [OF sh sl nf cf]) (simp_all add: predict_step_ok)
  with m show "predict_sequence self w0 n_steps features
        = Inr (map (\<lambda>i. m (concat (rollout_window (\<lambda>w. m (concat w)) (n_features self)
                                       features w0 i))) [0..<n_steps])"
    by (simp add: predict_sequence_def)
  fix i assume "i \<le> n_steps"
  then show "window_shape (sequence_length self) (n_features self)
          (rollout_window (\<lambda>w. m (concat w)) (n_features self) features w0 i)"
    by (rule rollout_window_shape [OF sh sl nf cf])
next
  assume a: "model lite = Some m' \<and> scaler lite = Some sc \<and>
    length (sk_mean sc) = sequence_length lite * n_features lite \<and>
    window_shape (sequence_length lite) (n_features lite) w0' \<and>
    1 \<le> sequence_length lite \<and> 1 \<le> n_features lite \<and>
    covariates_fit (n_features lite) features' n_steps'"
  then have sh: "window_shape (sequence_length lite) (n_features lite) w0'"
    and sl: "1 \<le> sequence_length lite" and nf: "1 \<le> n_features lite"
    and cf: "covariates_fit (n_features lite) features' n_steps'"
    and m: "model lite = Some m'" and sc: "scaler lite = Some sc"
    and len: "length (sk_mean sc) = sequence_length lite * n_features lite" by auto
  let ?f = "\<lambda>w. m' (standardize sc (concat w))"
  have "predict_loop (predict_step_lite lite m') (n_features lite) features' 0 n_steps'
          (rollout_window ?f (n_features lite) features' w0' 0) []
        = Inr ([] @ map (\<lambda>j. ?f (rollout_window ?f (n_features lite) features' w0' j))
                      [0..<0 + n_steps'],
               rollout_window ?f (n_features lite) features' w0' (0 + n_steps'))"
    by (rule predict_loop_rollout [OF sh sl nf cf]) (simp_all add: predict_step_lite_ok sc len)
  with m show "predict_sequence_lite lite w0' n_steps' features'
        = Inr (map (\<lambda>i. ?f (rollout_window ?f (n_features lite) features' w0' i)) [0..<n_steps'])"
    by (simp add: predict_sequence_lite_def)
  fix i assume "i \<le> n_steps'"
  then show "window_shape (sequence_length lite) (n_features lite)
          (rollout_window ?f (n_features lite) features' w0' i)"
    by (rule rollout_window_shape [OF sh sl nf cf])
qed

text \<open>
  A run of both variants on a two-by-two window with the sum of the inputs as network:
  the full variant with one row of future covariates, which the second step no longer
  has, and the light variant with none.
\<close>

lemma upt_two: "[0..<2] = [0, Suc 0]"
  by (simp add: upt_conv_Cons numeral_2_eq_2)

theorem predict_sequence_rollout_witness:
  "predict_sequence \<lparr>sequence_length = 2, n_features = 2, model = Some sum_list\<rparr>
      [[1, 2], [3, 4]] 2 (Some [[10]]) = Inr [10, 27]
   \<and> predict_sequence_lite
      \<lparr>sequence_length = 2, n_features = 2, model = Some sum_list,
        scaler = Some \<lparr>sk_mean = [1, 1, 1, 1], sk_std = [1, 1, 1, 2]\<rparr>\<rparr>
      [[1, 2], [3, 4]] 2 None = Inr [9 / 2, 10]"
  using predict_sequence_rollout
    [of "\<lparr>sequence_length = 2, n_features = 2, model = Some sum_list\<rparr>" sum_list
        "[[1, 2], [3, 4]]" "Some [[10]]" 2
        "\<lparr>sequence_length = 2, n_features = 2, model = Some sum_list,
          scaler = Some \<lparr>sk_mean = [1, 1, 1, 1], sk_std = [1, 1, 1, 2]\<rparr>\<rparr>" sum_list
        "\<lparr>sk_mean = [1, 1, 1, 1], sk_std = [1, 1, 1, 2]\<rparr>" "[[1, 2], [3, 4]]" None 2]
  by (simp add: window_shape_def covariates_fit_def rollout_covariates_def standardize_def
        upt_two Let_def)

section \<open>Properties of the ensemble\<close>

lemma predict_loop_length:
  "predict_loop step nf features i k w preds = Inr (ps, w') \<Longrightarrow> length ps = length preds + k"
proof (induction k arbitrary: i w preds)
  case 0
  then show ?case by simp
next
  case (Suc k)
  from Suc.prems obtain pred nxt where
    "predict_loop step nf features (Suc i) k nxt (preds @ [pred]) = Inr (ps, w')"
    by (auto split: sum.splits)
  from Suc.IH [OF this] show ?case by simp
qed

lemma predict_sequence_length:
  "predict_sequence self w n features = Inr ps \<Longrightarrow> length ps = n"
  by (auto simp: predict_sequence_def split: option.splits sum.splits dest: predict_loop_length)

lemma predict_sequence_lite_length:
  "predict_sequence_lite self w n features = Inr ps \<Longrightarrow> length ps = n"
  by (auto simp: predict_sequence_lite_def split: option.splits sum.splits dest: predict_loop_length)

lemma predict_lstm_length:
  assumes "predict_lstm self df h = Inr (Some l)"
  shows "length l = h"
proof -
  from assms obtain X sc ps where "predict_sequence (lstm_model self) (last X) h None = Inr ps"
    and "inverse_scale sc ps = Inr l"
    by (auto simp: predict_lstm_def split: sum.splits if_splits prod.splits)
  then show ?thesis
    by (auto simp: inverse_scale_def inverse_transform_def
        split: option.splits if_splits dest: predict_sequence_length)
qed

lemma predict_prophet_length:
  assumes "predict_prophet self h = Inr p"
  shows "length p = h"
  using assms
  by (auto simp: predict_prophet_def predict_future_def prophet_predict_def
      split: sum.splits if_splits)

lemma data_frame_rows:
  assumes "length pd = length ts" "length lo = length ts" "length up = length ts"
    "length lp = length ts" "length pp = length ts"
  shows "data_frame ts pd lo up lp pp =
     Inr (map (\<lambda>i. \<lparr>timestamp = ts ! i, predicted_demand = pd ! i, lower_bound = lo ! i,
                           upper_bound = up ! i, lstm_prediction = lp ! i,
                           prophet_prediction = pp ! i\<rparr>) [0..<length ts])"
  using assms by (simp add: data_frame_def)

lemma lstm_pred_length:
  "lstm_pred self df h = Some l \<Longrightarrow> length l = h"
  by (auto simp: lstm_pred_def split: sum.splits dest: predict_lstm_length)

lemma prophet_pred_length:
  "prophet_pred self h = Some p \<Longrightarrow> length p = h"
  by (auto simp: prophet_pred_def split: sum.splits dest: predict_prophet_length)

lemma predict_combined:
  assumes tr: "trained self"
    and c: "combine_predictions (weights self) (lstm_pred self df h) (prophet_pred self h)
              = Inr (e, u)"
    and len: "length e = h" "length u = h"
    and ts: "timestamps df \<noteq> []"
  shows "predict self df h =
     Inr (map (\<lambda>i. \<lparr>timestamp = last (timestamps df) + (int i + 1),
                     predicted_demand = e ! i,
                     lower_bound = e ! i - u ! i,
                     upper_bound = e ! i + u ! i,
                     lstm_prediction = (case lstm_pred self df h of Some l \<Rightarrow> l | None \<Rightarrow> e) ! i,
                     prophet_prediction = (case prophet_pred self h of Some p \<Rightarrow> p | None \<Rightarrow> e) ! i\<rparr>)
            [0..<h])"
proof -
  let ?ts = "map (\<lambda>i. last (timestamps df) + (int i + 1)) [0..<h]"
  let ?lp = "case lstm_pred self df h of Some l \<Rightarrow> l | None \<Rightarrow> e"
  let ?pp = "case prophet_pred self h of Some p \<Rightarrow> p | None \<Rightarrow> e"
  have lp: "(if lstm_pred self df h \<noteq> None then the (lstm_pred self df h) else e) = ?lp"
    by (simp split: option.splits)
  have pp: "(if prophet_pred self h \<noteq> None then the (prophet_pred self h) else e) = ?pp"
    by (simp split: option.splits)
  have llen: "length ?lp = h"
    using len by (auto split: option.splits dest: lstm_pred_length)
  have plen: "length ?pp = h"
    using len by (auto split: option.splits dest: prophet_pred_length)
  have "predict self df h = data_frame ?ts e (map2 (-) e u) (map2 (+) e u) ?lp ?pp"
    using tr c ts unfolding lp [symmetric] pp [symmetric] by (simp add: predict_def Let_def)
  also have "\<dots> = Inr (map (\<lambda>i. \<lparr>timestamp = ?ts ! i, predicted_demand = e ! i,
                    lower_bound = map2 (-) e u ! i, upper_bound = map2 (+) e u ! i,
                    lstm_prediction = ?lp ! i, prophet_prediction = ?pp ! i\<rparr>)
                  [0..<length ?ts])"
    using len llen plen by (intro data_frame_rows) simp_all
  also have "\<dots> = Inr (map (\<lambda>i. \<lparr>timestamp = last (timestamps df) + (int i + 1),
                     predicted_demand = e ! i,
                     lower_bound = e ! i - u ! i,
                     upper_bound = e ! i + u ! i,
                     lstm_prediction = ?lp ! i, prophet_prediction = ?pp ! i\<rparr>) [0..<h])"
    using len by (simp del: upt_Suc)
  finally show ?thesis .
qed

lemma combine_both:
  assumes "length l = length p"
  shows "combine_predictions w (Some l) (Some p) =
     Inr (map (\<lambda>i. lstm w * l ! i + prophet w * p ! i) [0..<length l],
          map (\<lambda>i. \<bar>l ! i - p ! i\<bar> * 0.5) [0..<length l])"
proof -
  have a: "map2 (+) (map (\<lambda>x. lstm w * x) l) (map (\<lambda>x. prophet w * x) p)
         = map (\<lambda>i. lstm w * l ! i + prophet w * p ! i) [0..<length l]"
    using assms by (auto intro!: nth_equalityI)
  have b: "map (\<lambda>d. d * 0.5) (map abs (map2 (-) l p))
         = map (\<lambda>i. \<bar>l ! i - p ! i\<bar> * 0.5) [0..<length l]"
    using assms by (auto intro!: nth_equalityI)
  show ?thesis using assms a b
    by (simp add: combine_predictions_def np_broadcast_def Let_def)
qed

lemma combine_single:
  "combine_predictions w (Some l) None = Inr (l, map (\<lambda>x. x * 0.1) l)"
  "combine_predictions w None (Some p) = Inr (p, map (\<lambda>x. x * 0.1) p)"
  "combine_predictions w None None = Inl BothModelsFailed"
  by (simp_all add: combine_predictions_def)

text \<open>
  Claim C1. When both the sequence forecast \<open>l\<close> and the trend forecast \<open>p\<close> are present
  and the weights are the configured defaults, \<open>predict\<close> returns one row per forecast
  step, and in row \<open>i\<close> the point estimate is \<open>0.6 * l[i] + 0.4 * p[i]\<close>, the uncertainty
  is \<open>0.5 * |l[i] - p[i]|\<close>, and the lower and upper bound are the point estimate minus
  and plus that uncertainty. The frame has a last timestamp to count the steps from.
\<close>

theorem ensemble_weighted_average:
  assumes "trained self" and "weights self = ENSEMBLE_WEIGHTS"
    and "lstm_pred self df h = Some l" and "prophet_pred self h = Some p"
    and "timestamps df \<noteq> []"
  shows "predict self df h =
     Inr (map (\<lambda>i. \<lparr>timestamp = last (timestamps df) + (int i + 1),
                     predicted_demand = 0.6 * l ! i + 0.4 * p ! i,
                     lower_bound = (0.6 * l ! i + 0.4 * p ! i) - 0.5 * \<bar>l ! i - p ! i\<bar>,
                     upper_bound = (0.6 * l ! i + 0.4 * p ! i) + 0.5 * \<bar>l ! i - p ! i\<bar>,
                     lstm_prediction = l ! i,
                     prophet_prediction = p ! i\<rparr>) [0..<h])"
proof -
  from assms(3) have ll: "length l = h" by (rule lstm_pred_length)
  from assms(4) have pl: "length p = h" by (rule prophet_pred_length)
  have c: "combine_predictions (weights self) (lstm_pred self df h) (prophet_pred self h)
      = Inr (map (\<lambda>i. lstm (weights self) * l ! i + prophet (weights self) * p ! i) [0..<length l],
             map (\<lambda>i. \<bar>l ! i - p ! i\<bar> * 0.5) [0..<length l])"
    using ll pl by (simp only: assms(3,4) combine_both)
  show ?thesis
    using ll
    by (simp add: predict_combined [OF assms(1) c _ _ assms(5)] assms(2,3,4)
          ENSEMBLE_WEIGHTS_def del: upt_Suc)
qed


lemma sample_lstm_pred:
  "lstm_pred (sample_ensemble pm) window_frame (Suc 0) = Some [50]"
  "lstm_pred (sample_ensemble pm) short_frame h = None"
  by (simp_all add: lstm_pred_def predict_lstm_def sample_ensemble_def sample_lstm_def
        window_frame_def short_frame_def predict_sequence_def predict_step_def
        shift_sequence_def assign_covariates_def inverse_scale_def inverse_transform_def)

lemma predict_future_rows:
  assumes "fitted self"
  shows "predict_future self n
           = Inr (map (forecast_row_at self) [history_length self..<history_length self + n])"
  using assms by (simp add: predict_future_def prophet_predict_def drop_map)

lemma sample_prophet_pred:
  "prophet_pred (sample_ensemble (sample_prophet y lo hi)) (Suc 0) = Some [y]"
  "prophet_pred (sample_ensemble unfitted_prophet) h = None"
  by (simp_all add: prophet_pred_def predict_prophet_def predict_future_rows
        sample_ensemble_def sample_prophet_def upt_conv_Cons)
     (simp add: predict_future_def prophet_predict_def unfitted_prophet_def)

lemma sample_trained:
  "trained (sample_ensemble pm)" "weights (sample_ensemble pm) = ENSEMBLE_WEIGHTS"
  "timestamps window_frame \<noteq> []" "last (timestamps window_frame) = 2"
  "timestamps short_frame \<noteq> []" "last (timestamps short_frame) = 2"
  by (simp_all add: sample_ensemble_def window_frame_def short_frame_def)

theorem ensemble_weighted_average_witness:
  "predict (sample_ensemble (sample_prophet 100 80 130)) window_frame 1 =
     Inr [\<lparr>timestamp = 3, predicted_demand = 70, lower_bound = 45, upper_bound = 95,
           lstm_prediction = 50, prophet_prediction = 100\<rparr>]"
  using ensemble_weighted_average [of "sample_ensemble (sample_prophet 100 80 130)"
      window_frame 1 "[50]" "[100]"]
  by (simp add: sample_trained sample_lstm_pred sample_prophet_pred)

lemma predict_single:
  assumes tr: "trained self" and ts: "timestamps df \<noteq> []"
    and one: "(lstm_pred self df h = None) \<noteq> (prophet_pred self h = None)"
    and s: "s = (case lstm_pred self df h of Some l \<Rightarrow> l | None \<Rightarrow> the (prophet_pred self h))"
  shows "predict self df h =
     Inr (map (\<lambda>i. \<lparr>timestamp = last (timestamps df) + (int i + 1),
                     predicted_demand = s ! i,
                     lower_bound = s ! i - s ! i * 0.1,
                     upper_bound = s ! i + s ! i * 0.1,
                     lstm_prediction = s ! i,
                     prophet_prediction = s ! i\<rparr>) [0..<h])"
proof -
  have len: "length s = h"
    using one s by (auto split: option.splits dest: lstm_pred_length prophet_pred_length)
  have c: "combine_predictions (weights self) (lstm_pred self df h) (prophet_pred self h)
             = Inr (s, map (\<lambda>x. x * 0.1) s)"
    using one s by (auto simp: combine_single split: option.splits)
  have cols: "(case lstm_pred self df h of Some l \<Rightarrow> l | None \<Rightarrow> s) = s"
    "(case prophet_pred self h of Some p \<Rightarrow> p | None \<Rightarrow> s) = s"
    using one s by (auto split: option.splits)
  show ?thesis
    using len by (simp add: predict_combined [OF tr c _ _ ts] cols del: upt_Suc)
qed

text \<open>
  Claim C3, as the code has it. When exactly one of the two forecasts is present, the
  point estimate of every step is the surviving forecast \<open>s\<close>, the uncertainty is
  \<open>0.1 * s[i]\<close>, and the bounds are \<open>s[i] - 0.1 * s[i]\<close> and \<open>s[i] + 0.1 * s[i]\<close>. This is
  so for either survivor: \<open>predict_prophet\<close> hands over the \<open>yhat\<close> column alone, so the
  interval that the trend forecaster computes itself never reaches the result.
\<close>

theorem single_forecast_band:
  assumes "trained self" and "timestamps df \<noteq> []"
    and "(lstm_pred self df h = None) \<noteq> (prophet_pred self h = None)"
    and "s = (case lstm_pred self df h of Some l \<Rightarrow> l | None \<Rightarrow> the (prophet_pred self h))"
  shows "predict self df h =
     Inr (map (\<lambda>i. \<lparr>timestamp = last (timestamps df) + (int i + 1),
                     predicted_demand = s ! i,
                     lower_bound = s ! i - 0.1 * s ! i,
                     upper_bound = s ! i + 0.1 * s ! i,
                     lstm_prediction = s ! i,
                     prophet_prediction = s ! i\<rparr>) [0..<h])"
  using predict_single [OF assms] by (simp add: mult.commute del: upt_Suc)

theorem single_forecast_band_witness:
  "predict (sample_ensemble unfitted_prophet) window_frame 1 =
     Inr [\<lparr>timestamp = 3, predicted_demand = 50, lower_bound = 45, upper_bound = 55,
           lstm_prediction = 50, prophet_prediction = 50\<rparr>]"
proof -
  have one: "(lstm_pred (sample_ensemble unfitted_prophet) window_frame (Suc 0) = None)
      \<noteq> (prophet_pred (sample_ensemble unfitted_prophet) (Suc 0) = None)"
    by (simp add: sample_lstm_pred sample_prophet_pred)
  have s: "[50] = (case lstm_pred (sample_ensemble unfitted_prophet) window_frame (Suc 0) of
                    Some l \<Rightarrow> l
                  | None \<Rightarrow> the (prophet_pred (sample_ensemble unfitted_prophet) (Suc 0)))"
    by (simp add: sample_lstm_pred)
  from single_forecast_band [OF sample_trained(1) sample_trained(3) one s]
  show ?thesis by (simp add: sample_trained)
qed

text \<open>
  The claim's last part fails: a trend forecaster that survives alone and carries the
  interval \<open>[80, 130]\<close> around 100 gets the bounds 90 and 110 in the result.
\<close>

theorem native_bounds_counterexample:
  "predict_future (prophet_model (sample_ensemble (sample_prophet 100 80 130))) 1 =
     Inr [\<lparr>ds = 3, yhat = 100, yhat_lower = 80, yhat_upper = 130\<rparr>]
   \<and> predict (sample_ensemble (sample_prophet 100 80 130)) short_frame 1 =
     Inr [\<lparr>timestamp = 3, predicted_demand = 100, lower_bound = 90, upper_bound = 110,
           lstm_prediction = 100, prophet_prediction = 100\<rparr>]"
proof
  show "predict_future (prophet_model (sample_ensemble (sample_prophet 100 80 130))) 1 =
     Inr [\<lparr>ds = 3, yhat = 100, yhat_lower = 80, yhat_upper = 130\<rparr>]"
    by (simp add: predict_future_rows sample_ensemble_def sample_prophet_def upt_conv_Cons)
  show "predict (sample_ensemble (sample_prophet 100 80 130)) short_frame 1 =
     Inr [\<lparr>timestamp = 3, predicted_demand = 100, lower_bound = 90, upper_bound = 110,
           lstm_prediction = 100, prophet_prediction = 100\<rparr>]"
  proof -
    have one: "(lstm_pred (sample_ensemble (sample_prophet 100 80 130)) short_frame (Suc 0) = None)
        \<noteq> (prophet_pred (sample_ensemble (sample_prophet 100 80 130)) (Suc 0) = None)"
      by (simp add: sample_lstm_pred sample_prophet_pred)
    have s: "[100] = (case lstm_pred (sample_ensemble (sample_prophet 100 80 130)) short_frame
                            (Suc 0) of
                      Some l \<Rightarrow> l
                    | None \<Rightarrow> the (prophet_pred (sample_ensemble (sample_prophet 100 80 130))
                                     (Suc 0)))"
      by (simp add: sample_lstm_pred sample_prophet_pred)
    from predict_single [OF sample_trained(1) sample_trained(5) one s]
    show ?thesis by (simp add: sample_trained)
  qed
qed

text \<open>
  Claim C4, as the code has it. On a trained ensemble whose two forecasters both fail (an
  exception, or no window for the sequence forecaster), \<open>predict\<close> raises "Both models
  failed to predict!" and so does \<open>predict_with_confidence\<close>: no forecast is produced.
  When only one of them fails and the frame has at least one row, \<open>predict\<close> returns a
  forecast of one row per step.
\<close>

theorem both_failed_raises:
  "(trained self \<and> lstm_pred self df h = None \<and> prophet_pred self h = None
      \<longrightarrow> predict self df h = Inl BothModelsFailed \<and>
          predict_with_confidence self df h = Inl BothModelsFailed)
   \<and>
   (trained self \<and> (lstm_pred self df h = None) \<noteq> (prophet_pred self h = None) \<and>
    timestamps df \<noteq> []
      \<longrightarrow> (\<exists>rows. predict self df h = Inr rows \<and> length rows = h))"
proof (intro conjI impI)
  assume a: "trained self \<and> lstm_pred self df h = None \<and> prophet_pred self h = None"
  then show p: "predict self df h = Inl BothModelsFailed"
    by (simp add: predict_def combine_single)
  then show "predict_with_confidence self df h = Inl BothModelsFailed"
    by (simp add: predict_with_confidence_def)
next
  assume a: "trained self \<and> (lstm_pred self df h = None) \<noteq> (prophet_pred self h = None) \<and>
    timestamps df \<noteq> []"
  then have tr: "trained self" and ts: "timestamps df \<noteq> []"
    and one: "(lstm_pred self df h = None) \<noteq> (prophet_pred self h = None)" by auto
  show "\<exists>rows. predict self df h = Inr rows \<and> length rows = h"
    by (simp add: predict_single [OF tr ts one refl] del: upt_Suc)
qed

text \<open>
  Without a row the claim fails: the failure of the sequence forecaster is caught, the
  trend forecaster answers, and \<open>predict\<close> raises when it reads the last timestamp of the
  frame (line 113), so no result is returned.
\<close>

theorem single_failure_counterexample:
  "lstm_pred (sample_ensemble (sample_prophet 100 80 130)) empty_frame 1 = None
   \<and> prophet_pred (sample_ensemble (sample_prophet 100 80 130)) 1 = Some [100]
   \<and> predict (sample_ensemble (sample_prophet 100 80 130)) empty_frame 1 = Inl IndexError"
proof -
  have l: "lstm_pred (sample_ensemble (sample_prophet 100 80 130)) empty_frame (Suc 0) = None"
    by (simp add: lstm_pred_def predict_lstm_def empty_frame_def)
  have ts: "timestamps empty_frame = []" by (simp add: empty_frame_def)
  have "predict (sample_ensemble (sample_prophet 100 80 130)) empty_frame (Suc 0) = Inl IndexError"
    by (simp add: predict_def l ts sample_prophet_pred sample_trained combine_single)
  with l show ?thesis by (simp add: sample_prophet_pred)
qed

theorem both_failed_raises_witness:
  "predict (sample_ensemble unfitted_prophet) short_frame 1 = Inl BothModelsFailed
   \<and> predict_with_confidence (sample_ensemble unfitted_prophet) short_frame 1
        = Inl BothModelsFailed
   \<and> (\<exists>rows. predict (sample_ensemble unfitted_prophet) window_frame 1 = Inr rows
          \<and> length rows = 1)
   \<and> (\<exists>rows. predict (sample_ensemble (sample_prophet 100 80 130)) short_frame 1 = Inr rows
          \<and> length rows = 1)"
  using both_failed_raises [of "sample_ensemble unfitted_prophet" short_frame 1]
    both_failed_raises [of "sample_ensemble unfitted_prophet" window_frame 1]
    both_failed_raises [of "sample_ensemble (sample_prophet 100 80 130)" short_frame 1]
  by (simp add: sample_trained sample_lstm_pred sample_prophet_pred)

lemma predict_row_cases:
  assumes "predict self df h = Inr rows" and "r \<in> set rows"
  obtains e u i where
    "combine_predictions (weights self) (lstm_pred self df h) (prophet_pred self h) = Inr (e, u)"
    "i < length e" "i < length u"
    "predicted_demand r = e ! i" "lower_bound r = e ! i - u ! i" "upper_bound r = e ! i + u ! i"
proof -
  from assms(1) obtain e u where
    c: "combine_predictions (weights self) (lstm_pred self df h) (prophet_pred self h) = Inr (e, u)"
    and d: "data_frame (map (\<lambda>i. last (timestamps df) + (int i + 1)) [0..<h]) e
              (map2 (-) e u) (map2 (+) e u)
              (if lstm_pred self df h \<noteq> None then the (lstm_pred self df h) else e)
              (if prophet_pred self h \<noteq> None then the (prophet_pred self h) else e) = Inr rows"
    by (auto simp: predict_def Let_def split: if_splits sum.splits)
  from d have len: "length e = h" "length (map2 (-) e u) = h"
    by (auto simp: data_frame_def split: if_splits)
  then have lu: "h \<le> length u" by simp
  from d len obtain i where i: "i < h"
    and r: "r = \<lparr>timestamp = map (\<lambda>i. last (timestamps df) + (int i + 1)) [0..<h] ! i,
                 predicted_demand = e ! i, lower_bound = map2 (-) e u ! i,
                 upper_bound = map2 (+) e u ! i,
                 lstm_prediction =
                   (if lstm_pred self df h \<noteq> None then the (lstm_pred self df h) else e) ! i,
                 prophet_prediction =
                   (if prophet_pred self h \<noteq> None then the (prophet_pred self h) else e) ! i\<rparr>"
    using assms(2) by (auto simp: data_frame_def split: if_splits)
  from i len lu have "i < length e" "i < length u" by auto
  moreover from this r have "predicted_demand r = e ! i" "lower_bound r = e ! i - u ! i"
    "upper_bound r = e ! i + u ! i" by simp_all
  ultimately show thesis using c that by blast
qed

lemma combine_both_nonneg:
  assumes "combine_predictions w (Some l) (Some p) = Inr (e, u)"
  shows "\<forall>x \<in> set u. 0 \<le> x"
  using assms
  by (auto simp: combine_predictions_def Let_def split: sum.splits)

text \<open>
  Claim C10. When both forecasts are present, every row that \<open>predict\<close> returns has
  \<open>lower_bound \<le> predicted_demand \<le> upper_bound\<close>. When exactly one is present the order
  is not kept: in a row with a negative point estimate the upper bound is below the
  estimate and the lower bound above it.
\<close>

theorem bounds_ordering:
  "(trained self \<and> lstm_pred self df h \<noteq> None \<and> prophet_pred self h \<noteq> None \<and>
    predict self df h = Inr rows
      \<longrightarrow> (\<forall>r \<in> set rows. lower_bound r \<le> predicted_demand r \<and>
                              predicted_demand r \<le> upper_bound r))
   \<and>
   (trained self \<and> (lstm_pred self df h = None) \<noteq> (prophet_pred self h = None) \<and>
    predict self df h = Inr rows
      \<longrightarrow> (\<forall>r \<in> set rows. predicted_demand r < 0 \<longrightarrow>
             upper_bound r < predicted_demand r \<and> predicted_demand r < lower_bound r))"
proof (intro conjI impI ballI)
  fix r
  assume a: "trained self \<and> lstm_pred self df h \<noteq> None \<and> prophet_pred self h \<noteq> None \<and>
    predict self df h = Inr rows" and r: "r \<in> set rows"
  then obtain l p where l: "lstm_pred self df h = Some l" and p: "prophet_pred self h = Some p"
    and pr: "predict self df h = Inr rows" by auto
  from pr r obtain e u i where
    c: "combine_predictions (weights self) (lstm_pred self df h) (prophet_pred self h) = Inr (e, u)"
    and i: "i < length u"
    and v: "predicted_demand r = e ! i" "lower_bound r = e ! i - u ! i"
      "upper_bound r = e ! i + u ! i"
    by (rule predict_row_cases)
  from c have "\<forall>x \<in> set u. 0 \<le> x" unfolding l p by (rule combine_both_nonneg)
  with i have "0 \<le> u ! i" by simp
  with v show "lower_bound r \<le> predicted_demand r" "predicted_demand r \<le> upper_bound r"
    by simp_all
next
  fix r
  assume a: "trained self \<and> (lstm_pred self df h = None) \<noteq> (prophet_pred self h = None) \<and>
    predict self df h = Inr rows" and r: "r \<in> set rows" and neg: "predicted_demand r < 0"
  then have pr: "predict self df h = Inr rows"
    and one: "(lstm_pred self df h = None) \<noteq> (prophet_pred self h = None)" by auto
  from pr r obtain e u i where
    c: "combine_predictions (weights self) (lstm_pred self df h) (prophet_pred self h) = Inr (e, u)"
    and i: "i < length e"
    and v: "predicted_demand r = e ! i" "lower_bound r = e ! i - u ! i"
      "upper_bound r = e ! i + u ! i"
    by (rule predict_row_cases)
  from c one have "u = map (\<lambda>x. x * 0.1) e"
    by (auto simp: combine_single)
  with i have "u ! i = e ! i * 0.1" by simp
  with v neg show "upper_bound r < predicted_demand r" "predicted_demand r < lower_bound r"
    by simp_all
qed

theorem bounds_ordering_witness:
  "predict (sample_ensemble (sample_prophet 100 80 130)) window_frame 1 =
     Inr [\<lparr>timestamp = 3, predicted_demand = 70, lower_bound = 45, upper_bound = 95,
           lstm_prediction = 50, prophet_prediction = 100\<rparr>]
   \<and> lower_bound \<lparr>timestamp = 3, predicted_demand = 70, lower_bound = 45, upper_bound = 95,
                    lstm_prediction = 50, prophet_prediction = 100\<rparr> \<le> (70 :: real)
   \<and> (70 :: real) \<le> upper_bound \<lparr>timestamp = 3, predicted_demand = 70, lower_bound = 45,
                    upper_bound = 95, lstm_prediction = 50, prophet_prediction = 100\<rparr>
   \<and> predict (sample_ensemble (sample_prophet (- 100) (- 120) (- 70))) short_frame 1 =
     Inr [\<lparr>timestamp = 3, predicted_demand = - 100, lower_bound = - 90, upper_bound = - 110,
           lstm_prediction = - 100, prophet_prediction = - 100\<rparr>]
   \<and> upper_bound \<lparr>timestamp = 3, predicted_demand = - 100, lower_bound = - 90,
                    upper_bound = - 110, lstm_prediction = - 100, prophet_prediction = - 100\<rparr>
        < (- 100 :: real)
   \<and> (- 100 :: real) < lower_bound \<lparr>timestamp = 3, predicted_demand = - 100, lower_bound = - 90,
                    upper_bound = - 110, lstm_prediction = - 100, prophet_prediction = - 100\<rparr>"
proof -
  have b: "predict (sample_ensemble (sample_prophet 100 80 130)) window_frame (Suc 0) =
     Inr [\<lparr>timestamp = 3, predicted_demand = 70, lower_bound = 45, upper_bound = 95,
           lstm_prediction = 50, prophet_prediction = 100\<rparr>]"
    using predict_combined [of "sample_ensemble (sample_prophet 100 80 130)" window_frame
        "Suc 0" "[70]" "[25]"]
    by (simp add: sample_trained sample_lstm_pred sample_prophet_pred combine_both
          ENSEMBLE_WEIGHTS_def)
  have s: "predict (sample_ensemble (sample_prophet (- 100) (- 120) (- 70))) short_frame (Suc 0) =
     Inr [\<lparr>timestamp = 3, predicted_demand = - 100, lower_bound = - 90, upper_bound = - 110,
           lstm_prediction = - 100, prophet_prediction = - 100\<rparr>]"
  proof -
    have one: "(lstm_pred (sample_ensemble (sample_prophet (- 100) (- 120) (- 70))) short_frame
                  (Suc 0) = None)
        \<noteq> (prophet_pred (sample_ensemble (sample_prophet (- 100) (- 120) (- 70))) (Suc 0) = None)"
      by (simp add: sample_lstm_pred sample_prophet_pred)
    have s: "[- 100] = (case lstm_pred (sample_ensemble (sample_prophet (- 100) (- 120) (- 70)))
                               short_frame (Suc 0) of
                      Some l \<Rightarrow> l
                    | None \<Rightarrow> the (prophet_pred
                                 (sample_ensemble (sample_prophet (- 100) (- 120) (- 70))) (Suc 0)))"
      by (simp add: sample_lstm_pred sample_prophet_pred)
    from predict_single [OF sample_trained(1) sample_trained(5) one s]
    show ?thesis by (simp add: sample_trained)
  qed
  from bounds_ordering [of "sample_ensemble (sample_prophet 100 80 130)" window_frame "Suc 0"
        "[\<lparr>timestamp = 3, predicted_demand = 70, lower_bound = 45, upper_bound = 95,
           lstm_prediction = 50, prophet_prediction = 100\<rparr>]"]
    bounds_ordering [of "sample_ensemble (sample_prophet (- 100) (- 120) (- 70))" short_frame
        "Suc 0" "[\<lparr>timestamp = 3, predicted_demand = - 100, lower_bound = - 90,
           upper_bound = - 110, lstm_prediction = - 100, prophet_prediction = - 100\<rparr>]"]
    b s
  show ?thesis
    by (simp add: sample_trained sample_lstm_pred sample_prophet_pred)
qed

lemma confidence_of_nonzero:
  assumes "predicted_demand r \<noteq> 0"
  shows "confidence_of r =
           Fin (min 100 (max 0 (100 * (1 - (upper_bound r - lower_bound r)
                                             / (2 * predicted_demand r)))))"
  using assms by (simp add: confidence_of_def fl_div_def)

lemma confidence_of_in_range:
  assumes "predicted_demand r \<noteq> 0"
  shows "\<exists>c. confidence_of r = Fin c \<and> 0 \<le> c \<and> c \<le> 100"
  using assms by (simp add: confidence_of_nonzero)

lemma confidence_of_zero_point:
  assumes "predicted_demand r = 0"
  shows "confidence_of r =
           (if lower_bound r < upper_bound r then Fin 0
            else if upper_bound r < lower_bound r then Fin 100
            else NaN)"
  using assms by (simp add: confidence_of_def fl_div_def)

text \<open>
  Claim C2 asks for a confidence of 0 when the point estimate is 0, and for a confidence
  in \<open>[0, 100]\<close> always. The code has no guard: it divides by \<open>2 * predicted_demand\<close>.
  Away from zero the result is the clipped formula (\<open>confidence_of_nonzero\<close>); at zero
  with a positive width the quotient is infinite and clips to 0; at zero with equal
  bounds it is \<open>0 / 0\<close>, and \<open>clip\<close> leaves NaN. The latter arises when a forecast of
  exactly 0 survives alone, as here, or when both forecasts are 0.
\<close>

theorem confidence_nan_at_zero:
  "predict_with_confidence (sample_ensemble (sample_prophet 0 0 0)) short_frame 1 =
     Inr [\<lparr>timestamp = 3, predicted_demand = 0, lower_bound = 0, upper_bound = 0,
           lstm_prediction = 0, prophet_prediction = 0, confidence = NaN\<rparr>]"
proof -
  have one: "(lstm_pred (sample_ensemble (sample_prophet 0 0 0)) short_frame (Suc 0) = None)
      \<noteq> (prophet_pred (sample_ensemble (sample_prophet 0 0 0)) (Suc 0) = None)"
    by (simp add: sample_lstm_pred sample_prophet_pred)
  have s: "[0] = (case lstm_pred (sample_ensemble (sample_prophet 0 0 0)) short_frame (Suc 0) of
                    Some l \<Rightarrow> l
                  | None \<Rightarrow> the (prophet_pred (sample_ensemble (sample_prophet 0 0 0)) (Suc 0)))"
    by (simp add: sample_lstm_pred sample_prophet_pred)
  from predict_single [OF sample_trained(1) sample_trained(5) one s]
  show ?thesis
    by (simp add: sample_trained predict_with_confidence_def confidence_of_zero_point
          forecast_row.defs)
qed

section \<open>Predicting before training\<close>









section \<open>Properties of the anomaly detector\<close>

lemma rolling_values_window:
  assumes "rolling_values data w i = Some vs"
  shows "length vs = w" and "data ! i \<in> set vs"
    and "w \<le> i + 1 + (w - 1) div 2" and "i + 1 + (w - 1) div 2 \<le> length data"
proof -
  let ?stop = "i + 1 + (w - 1) div 2"
  from assms have w: "w \<noteq> 0" and lo: "w \<le> ?stop" and hi: "?stop \<le> length data"
    and vs: "vs = take w (drop (?stop - w) data)"
    by (auto simp: rolling_values_def Let_def split: if_splits)
  from lo show "w \<le> ?stop" .
  from hi show "?stop \<le> length data" .
  from lo hi show len: "length vs = w" unfolding vs by simp
  from w have "(w - 1) div 2 + 1 \<le> w" by simp
  with lo have st: "?stop - w \<le> i" by simp
  have lt: "i - (?stop - w) < w" using lo w by simp
  from st lt hi have "vs ! (i - (?stop - w)) = data ! i"
    unfolding vs by simp
  moreover from lt len have "vs ! (i - (?stop - w)) \<in> set vs" by simp
  ultimately show "data ! i \<in> set vs" by simp
qed

lemma sample_std_nonneg:
  assumes "2 \<le> length vs"
  shows "0 \<le> sample_std vs"
proof -
  have "0 \<le> sum_list (map (\<lambda>x. (x - mean vs)\<^sup>2) vs)"
    by (rule sum_list_nonneg) auto
  moreover from assms have "0 < real (length vs) - 1" by simp
  ultimately show ?thesis by (simp add: sample_std_def)
qed

lemma sample_std_zero:
  assumes "2 \<le> length vs" and "sample_std vs = 0" and "x \<in> set vs"
  shows "x = mean vs"
proof -
  from assms(1) have pos: "0 < real (length vs) - 1" by simp
  from assms(2) pos have "sum_list (map (\<lambda>x. (x - mean vs)\<^sup>2) vs) = 0"
    by (simp add: sample_std_def)
  moreover have "\<forall>y \<in> set (map (\<lambda>x. (x - mean vs)\<^sup>2) vs). 0 \<le> y" by auto
  ultimately have "\<forall>y \<in> set (map (\<lambda>x. (x - mean vs)\<^sup>2) vs). y = 0"
    by (simp only: sum_list_nonneg_eq_0_iff)
  with assms(3) have "(x - mean vs)\<^sup>2 = 0" by auto
  then show ?thesis by simp
qed

lemma z_scores_exceeds:
  "fl_gt (z_scores data w i) c \<longleftrightarrow> exceeds (zscore_at data w i) c"
proof (cases "rolling_values data w i")
  case None
  then show ?thesis
    by (simp add: z_scores_def zscore_at_def rolling_mean_def rolling_std_def exceeds_def)
next
  case (Some vs)
  note win = rolling_values_window [OF Some]
  show ?thesis
  proof (cases "w < 2")
    case True
    with Some show ?thesis
      by (simp add: z_scores_def zscore_at_def rolling_mean_def rolling_std_def exceeds_def)
  next
    case False
    with win(1) have two: "2 \<le> length vs" by simp
    have m: "rolling_mean data w i = Some (mean vs)"
      and s: "rolling_std data w i = Some (sample_std vs)"
      using Some False by (simp_all add: rolling_mean_def rolling_std_def)
    show ?thesis
    proof (cases "sample_std vs = 0")
      case True
      from sample_std_zero [OF two True win(2)] have "data ! i - mean vs = 0" by simp
      with True show ?thesis
        by (simp add: z_scores_def zscore_at_def m s fl_div_def exceeds_def)
    next
      case False
      with sample_std_nonneg [OF two] have "0 < sample_std vs" by simp
      then show ?thesis
        by (simp add: z_scores_def zscore_at_def m s fl_div_def exceeds_def)
    qed
  qed
qed

lemma fl_gt_not_nan: "fl_gt z c \<Longrightarrow> \<not> isnan z"
  by (cases z) simp_all

lemma exceeds_window:
  assumes "exceeds (zscore_at data w i) c"
  shows "w \<le> i + 1 + (w - 1) div 2 \<and> i + 1 + (w - 1) div 2 \<le> length data \<and>
         rolling_std data w i \<noteq> None"
proof -
  from assms obtain vs where "rolling_values data w i = Some vs" and "rolling_std data w i \<noteq> None"
    by (cases "rolling_values data w i")
       (auto simp: exceeds_def zscore_at_def rolling_mean_def rolling_std_def
             split: option.splits if_splits)
  with rolling_values_window(3,4) [of data w i vs] show ?thesis by simp
qed

lemma detect_zscore_indices:
  "map z_index (detect_zscore_anomalies self data window_arg) =
     filter (\<lambda>i. exceeds (zscore_at data (case window_arg of None \<Rightarrow> window self | Some w' \<Rightarrow> w') i)
                   (threshold self)) [0..<length data]"
proof -
  let ?w = "case window_arg of None \<Rightarrow> window self | Some w' \<Rightarrow> w'"
  let ?P = "\<lambda>i. fl_gt (z_scores data ?w i) (threshold self)"
  have "filter (\<lambda>idx. \<not> isnan (z_scores data ?w idx)) (filter ?P [0..<length data])
        = filter ?P [0..<length data]"
    by (rule filter_True) (auto dest: fl_gt_not_nan)
  then show ?thesis
    by (simp only: detect_zscore_anomalies_def Let_def map_map comp_def
          zscore_anomaly.simps map_ident z_scores_exceeds)
qed

lemma detect_zscore_severity:
  assumes "a \<in> set (detect_zscore_anomalies self data window_arg)"
  shows "z_severity a =
     (if exceeds (zscore_at data (case window_arg of None \<Rightarrow> window self | Some w' \<Rightarrow> w')
                    (z_index a)) (threshold self * 1.5)
      then High else Medium)"
  using assms
  by (auto simp: detect_zscore_anomalies_def Let_def z_scores_exceeds)

text \<open>
  Claim C7. The configured defaults are a threshold of 3.0 and a window of 24 samples.
  For every series, with \<open>w\<close> the window in force, the z-score detector flags exactly the
  indices whose z-score \<open>|value[i] - rolling_mean[i]| / rolling_std[i]\<close> over the centered
  window exceeds the threshold, in ascending order; a flagged point is "high" exactly when
  its z-score exceeds 1.5 times the threshold, and "medium" otherwise; and an index where
  the rolling standard deviation is undefined, in particular one whose window leaves the
  series at either edge, is never flagged.
\<close>

theorem zscore_detector_flags:
  "threshold default_detector = 3 \<and> window default_detector = 24 \<and>
   (w = (case window_arg of None \<Rightarrow> window self | Some w' \<Rightarrow> w') \<longrightarrow>
     map z_index (detect_zscore_anomalies self data window_arg) =
       filter (\<lambda>i. exceeds (zscore_at data w i) (threshold self)) [0..<length data] \<and>
     (\<forall>a \<in> set (detect_zscore_anomalies self data window_arg).
        z_severity a =
          (if exceeds (zscore_at data w (z_index a)) (1.5 * threshold self) then High else Medium)) \<and>
     (\<forall>i. rolling_std data w i = None \<or> i + 1 + (w - 1) div 2 < w \<or>
           length data < i + 1 + (w - 1) div 2
           \<longrightarrow> i \<notin> set (map z_index (detect_zscore_anomalies self data window_arg))))"
proof (intro conjI impI ballI allI)
  show "threshold default_detector = 3" "window default_detector = 24"
    by (simp_all add: default_detector_def ANOMALY_THRESHOLD_def ANOMALY_WINDOW_def)
next
  assume w: "w = (case window_arg of None \<Rightarrow> window self | Some w' \<Rightarrow> w')"
  show idx: "map z_index (detect_zscore_anomalies self data window_arg) =
       filter (\<lambda>i. exceeds (zscore_at data w i) (threshold self)) [0..<length data]"
    unfolding w by (rule detect_zscore_indices)
  {
    fix a assume "a \<in> set (detect_zscore_anomalies self data window_arg)"
    then show "z_severity a =
          (if exceeds (zscore_at data w (z_index a)) (1.5 * threshold self) then High else Medium)"
      unfolding w by (simp add: detect_zscore_severity mult.commute)
  }
  {
    fix i
    assume e: "rolling_std data w i = None \<or> i + 1 + (w - 1) div 2 < w \<or>
           length data < i + 1 + (w - 1) div 2"
    show "i \<notin> set (map z_index (detect_zscore_anomalies self data window_arg))"
    proof
      assume "i \<in> set (map z_index (detect_zscore_anomalies self data window_arg))"
      then have "exceeds (zscore_at data w i) (threshold self)"
        unfolding idx by simp
      from exceeds_window [OF this] e show False by auto
    qed
  }
qed


lemma filter_upt_single:
  assumes "k < n" and "P k" and "\<And>i. i < n \<Longrightarrow> i \<noteq> k \<Longrightarrow> \<not> P i"
  shows "filter P [0..<n] = [k]"
proof -
  from assms(1) have "[0..<n] = [0..<k] @ [k..<n]"
    using upt_add_eq_append [of 0 k "n - k"] by simp
  also from assms(1) have "[k..<n] = k # [Suc k..<n]" by (rule upt_conv_Cons)
  finally have split: "[0..<n] = [0..<k] @ k # [Suc k..<n]" .
  have "filter P [0..<k] = []" using assms(1,3) by (auto simp: filter_empty_conv)
  moreover have "filter P [Suc k..<n] = []" using assms(3) by (auto simp: filter_empty_conv)
  ultimately show ?thesis using assms(2) by (simp add: split)
qed

lemma spike_series_length: "length spike_series = 24"
  by (simp add: spike_series_def)

lemma spike_series_rolling:
  "rolling_values spike_series 24 i = (if i = 12 then Some spike_series else None)"
  by (auto simp: rolling_values_def Let_def spike_series_length)

lemma spike_series_mean: "mean spike_series = 275 / 2"
  by (simp add: mean_def spike_series_def sum_list_replicate)

lemma spike_series_std: "sample_std spike_series = sqrt 33750"
  by (simp add: sample_std_def spike_series_mean)
     (simp add: spike_series_def sum_list_replicate power2_eq_square)

lemma sqrt_33750: "0 < sqrt 33750" "sqrt 33750 < 184"
  by (simp, rule real_less_lsqrt) simp_all

lemma spike_series_12: "spike_series ! 12 = 1000"
  by (simp add: spike_series_def nth_append)

lemma spike_series_zscore:
  "zscore_at spike_series 24 i = (if i = 12 then Some ((1725 / 2) / sqrt 33750) else None)"
  using sqrt_33750(1)
  by (simp add: zscore_at_def rolling_mean_def rolling_std_def spike_series_rolling
        spike_series_mean spike_series_std spike_series_12)

lemma spike_series_exceeds:
  "exceeds (zscore_at spike_series 24 i) 3 \<longleftrightarrow> i = 12"
  "exceeds (zscore_at spike_series 24 12) (9 / 2)"
  using sqrt_33750
  by (simp_all add: spike_series_zscore exceeds_def pos_less_divide_eq)

lemma spike_series_flagged:
  "filter (\<lambda>i. exceeds (zscore_at spike_series 24 i) 3) [0..<24] = [12]"
  by (rule filter_upt_single) (simp_all add: spike_series_exceeds)

theorem zscore_detector_flags_witness:
  "map z_index (detect_zscore_anomalies default_detector spike_series None) = [12]
   \<and> map z_severity (detect_zscore_anomalies default_detector spike_series None) = [High]
   \<and> rolling_std spike_series 24 11 = None"
proof -
  let ?d = "detect_zscore_anomalies default_detector spike_series None"
  have dd: "threshold default_detector = 3" "window default_detector = 24"
    by (simp_all add: default_detector_def ANOMALY_THRESHOLD_def ANOMALY_WINDOW_def)
  from zscore_detector_flags [where w = 24 and window_arg = None and self = default_detector
      and data = spike_series]
  have idx: "map z_index ?d = [12]"
    and sev: "\<forall>a \<in> set ?d. z_severity a =
          (if exceeds (zscore_at spike_series 24 (z_index a)) (9 / 2) then High else Medium)"
    by (simp_all add: dd spike_series_length spike_series_flagged)
  from idx obtain a where a: "?d = [a]" "z_index a = 12" by auto
  with sev have "z_severity a = High" by (simp add: spike_series_exceeds)
  with a idx show ?thesis
    by (simp add: rolling_std_def spike_series_rolling)
qed

lemma py_round2_scaled:
  "py_round2 t x * 100 = of_int \<lfloor>x * 100\<rfloor> \<or> py_round2 t x * 100 = of_int \<lfloor>x * 100\<rfloor> + 1"
  by (simp add: py_round2_def Let_def)

lemma py_round2_hundredth: "\<exists>m::int. py_round2 t x = of_int m / 100"
proof -
  from py_round2_scaled [of t x]
  have "py_round2 t x = of_int \<lfloor>x * 100\<rfloor> / 100 \<or> py_round2 t x = of_int (\<lfloor>x * 100\<rfloor> + 1) / 100"
    by auto
  then show ?thesis by blast
qed

lemma py_round2_error: "\<bar>py_round2 t x - x\<bar> \<le> 1 / 200"
proof -
  define y where "y = x * 100"
  define f where "f = \<lfloor>y\<rfloor>"
  define d where "d = y - of_int f"
  have d: "0 \<le> d" "d < 1" unfolding d_def f_def by linarith+
  have y: "y = of_int f + d" by (simp add: d_def)
  have "\<bar>py_round2 t x * 100 - y\<bar> \<le> 1 / 2"
    unfolding py_round2_def Let_def y_def [symmetric] f_def [symmetric] d_def [symmetric]
    using d y by (auto simp: abs_if)
  moreover have "\<bar>py_round2 t x * 100 - y\<bar> = \<bar>py_round2 t x - x\<bar> * 100"
  proof -
    have "py_round2 t x * 100 - y = (py_round2 t x - x) * 100"
      unfolding y_def by (simp add: algebra_simps)
    then show ?thesis by (simp only: abs_mult abs_numeral)
  qed
  ultimately have "\<bar>py_round2 t x - x\<bar> * 100 \<le> 1 / 2" by simp
  then show ?thesis by simp
qed

text \<open>
  Claim C8, as the code has it. On a series with at least one sample,
  \<open>analyze_anomalies\<close> reports as \<open>anomaly_rate\<close> the number of z-score anomalies divided
  by the number of samples, times 100, rounded to two decimals: a multiple of 0.01 that
  differs from the unrounded quotient by at most 0.005, whatever the floats decide where
  the quotient is halfway between two multiples. The counts of the IQR and sudden-change
  methods do not enter it. \<open>total_anomalies\<close> is the sum of the counts of the three
  methods.
\<close>

theorem anomaly_rate_rounded:
  assumes "data \<noteq> []"
  shows "\<exists>r. analyze_anomalies self data tie_up = Inr r \<and>
           (\<exists>m::int. anomaly_rate r = of_int m / 100) \<and>
           \<bar>anomaly_rate r - real (length (detect_zscore_anomalies self data None))
                                / real (length data) * 100\<bar> \<le> 1 / 200 \<and>
           total_anomalies r = length (detect_zscore_anomalies self data None)
                               + length (detect_iqr_anomalies data)
                               + length (detect_sudden_changes data 0.3)"
proof -
  let ?x = "real (length (detect_zscore_anomalies self data None)) / real (length data) * 100"
  let ?r = "\<lparr>zscore_anomalies = detect_zscore_anomalies self data None,
            iqr_anomalies = detect_iqr_anomalies data,
            sudden_changes = detect_sudden_changes data 0.3,
            total_anomalies = length (detect_zscore_anomalies self data None)
                               + length (detect_iqr_anomalies data)
                               + length (detect_sudden_changes data 0.3),
            anomaly_rate = py_round2 tie_up ?x\<rparr>"
  from assms have "analyze_anomalies self data tie_up = Inr ?r"
    by (simp add: analyze_anomalies_def Let_def)
  moreover have "\<exists>m::int. anomaly_rate ?r = of_int m / 100"
    using py_round2_hundredth [of tie_up ?x] by simp
  moreover have "\<bar>anomaly_rate ?r - ?x\<bar> \<le> 1 / 200"
    using py_round2_error [of tie_up ?x] by simp
  moreover have "total_anomalies ?r = length (detect_zscore_anomalies self data None)
                               + length (detect_iqr_anomalies data)
                               + length (detect_sudden_changes data 0.3)"
    by simp
  ultimately show ?thesis by blast
qed

lemma spike_zscore_count:
  "length (detect_zscore_anomalies default_detector spike_series None) = 1"
proof -
  have "length (map z_index (detect_zscore_anomalies default_detector spike_series None)) = 1"
    by (simp only: detect_zscore_indices)
       (simp add: default_detector_def ANOMALY_THRESHOLD_def ANOMALY_WINDOW_def
          spike_series_length spike_series_flagged)
  then show ?thesis by simp
qed

lemma round_spike_rate: "py_round2 t (1 / 24 * 100) = 417 / 100"
  by (simp add: py_round2_def Let_def)

text \<open>
  The rate is not the quotient itself: one z-score anomaly in 24 samples is reported as
  4.17, and \<open>1 / 24 * 100\<close> is \<open>25 / 6\<close>.
\<close>

theorem anomaly_rate_counterexample:
  "anomaly_rate (projr (analyze_anomalies default_detector spike_series True)) = 417 / 100
   \<and> anomaly_rate (projr (analyze_anomalies default_detector spike_series False)) = 417 / 100
   \<and> real (length (detect_zscore_anomalies default_detector spike_series None))
        / real (length spike_series) * 100 = 25 / 6
   \<and> anomaly_rate (projr (analyze_anomalies default_detector spike_series True))
        \<noteq> real (length (detect_zscore_anomalies default_detector spike_series None))
            / real (length spike_series) * 100"
  using round_spike_rate [of True] round_spike_rate [of False]
  by (simp add: analyze_anomalies_def Let_def spike_zscore_count spike_series_length)

lemma spike_iqr_count: "length (detect_iqr_anomalies spike_series) = 1"
  by code_simp

lemma spike_sudden_count: "length (detect_sudden_changes spike_series 0.3) = 2"
  by code_simp


lemma hundredth_unique:
  fixes m :: int
  assumes "\<bar>of_int m / 100 - (25 / 6 :: real)\<bar> \<le> 1 / 200"
  shows "m = 417"
proof -
  from assms have "of_int m / 100 - (25 / 6 :: real) \<le> 1 / 200"
    and "- (1 / 200) \<le> of_int m / 100 - (25 / 6 :: real)"
    by (simp_all only: abs_le_iff) linarith+
  then have "(416 :: real) < of_int m" "of_int m < (418 :: real)" by linarith+
  then have "416 < m" "m < 418" by linarith+
  then show ?thesis by linarith
qed

theorem anomaly_rate_rounded_witness:
  "analyze_anomalies default_detector spike_series True =
     Inr \<lparr>zscore_anomalies = detect_zscore_anomalies default_detector spike_series None,
          iqr_anomalies = detect_iqr_anomalies spike_series,
          sudden_changes = detect_sudden_changes spike_series 0.3,
          total_anomalies = 4,
          anomaly_rate = 417 / 100\<rparr>"
proof -
  have ne: "spike_series \<noteq> []" by (simp add: spike_series_def)
  from anomaly_rate_rounded [OF ne, of default_detector True]
  obtain r m where r: "analyze_anomalies default_detector spike_series True = Inr r"
    and hundredth: "anomaly_rate r = of_int m / 100"
    and near: "\<bar>anomaly_rate r - real (length (detect_zscore_anomalies default_detector
                   spike_series None)) / real (length spike_series) * 100\<bar> \<le> 1 / 200"
    and total: "total_anomalies r = length (detect_zscore_anomalies default_detector spike_series None)
                               + length (detect_iqr_anomalies spike_series)
                               + length (detect_sudden_changes spike_series 0.3)"
    by blast
  from near have "\<bar>of_int m / 100 - (25 / 6 :: real)\<bar> \<le> 1 / 200"
    by (simp add: hundredth spike_zscore_count spike_series_length)
  then have "m = 417" by (rule hundredth_unique)
  with hundredth have rate': "anomaly_rate r = 417 / 100" by simp
  from total have total': "total_anomalies r = 4"
    by (simp only: spike_zscore_count spike_iqr_count spike_sudden_count)
  from r ne have "zscore_anomalies r = detect_zscore_anomalies default_detector spike_series None"
    "iqr_anomalies r = detect_iqr_anomalies spike_series"
    "sudden_changes r = detect_sudden_changes spike_series 0.3"
    by (auto simp: analyze_anomalies_def Let_def)
  with rate' total' have "r = \<lparr>zscore_anomalies = detect_zscore_anomalies default_detector spike_series None,
          iqr_anomalies = detect_iqr_anomalies spike_series,
          sudden_changes = detect_sudden_changes spike_series 0.3,
          total_anomalies = 4,
          anomaly_rate = 417 / 100\<rparr>"
    by (cases r) simp
  with r show ?thesis by simp
qed

end
